theory Spec2Isabelle
  imports Complex_Main "HOL-Library.Log_Nat"
begin

section \<open>DOOR rate oracle: data model\<close>

text \<open>
  The rate oracle of the DOOR protocol backend collects one rate per source, validates
  the set, aggregates it into the DOR and pushes it on chain. The development follows
  the oracle sources: the collectors module (\<open>calculateDOR\<close>, \<open>validateRates\<close>, the
  five \<open>collect*\<close> functions and their \<open>withRetry\<close>), the pusher module
  (\<open>CircuitBreaker\<close>, \<open>withRetry\<close>, \<open>RatePusher\<close>) and the runner (\<open>runUpdate\<close>).

  \<open>enum RateSourceId { TESR = 0, METH = 1, SOFR = 2, AAVE_USDT = 3, ONDO_USDY = 4 }\<close>
\<close>

datatype RateSourceId = TESR | METH | SOFR | AAVE_USDT | ONDO_USDY

text \<open>
  \<open>interface RateData\<close>. The field \<open>rate\<close> is a JavaScript number that holds basis
  points, an integer by the data model; the record keeps its integer value (an integer
  that no double has is not a value of the field). \<open>timestamp\<close> is in milliseconds
  (\<open>Date.now()\<close>).
\<close>

record RateData =
  sourceId :: RateSourceId
  name :: string
  rate :: int
  timestamp :: int
  source :: string
  isLive :: bool

section \<open>Aggregation: \<open>calculateDOR\<close>\<close>

text \<open>The table \<open>weights\<close> local to \<open>calculateDOR\<close>.\<close>

fun weights :: "RateSourceId \<Rightarrow> int" where
  "weights TESR = 2000"
| "weights METH = 3000"
| "weights SOFR = 2500"
| "weights AAVE_USDT = 1500"
| "weights ONDO_USDY = 1000"

subsection \<open>Double arithmetic on integers\<close>

text \<open>
  \<open>calculateDOR\<close> computes in JavaScript numbers, that is in IEEE 754 binary64 with
  rounding to nearest, ties to even. Its operands are integers, so the sums and
  products are modelled on integers: \<open>Num n\<close> is the double whose value is the integer
  \<open>n\<close>, and \<open>NotFinite\<close> stands for \<open>Infinity\<close>, \<open>-Infinity\<close> and \<open>NaN\<close>, which no
  addition, multiplication or division by a weight leads out of. \<open>0\<close> is \<open>Num 0\<close>.
\<close>

datatype number = Num int | NotFinite

instantiation number :: zero
begin

definition zero_number :: number where
  "zero_number = Num 0"

instance ..

end

text \<open>
  \<open>round_half_even n u\<close> is the integer nearest to \<open>n / u\<close> for \<open>u > 0\<close>, the even one
  of the two when \<open>n / u\<close> lies halfway.
\<close>

definition round_half_even :: "int \<Rightarrow> int \<Rightarrow> int" where
  "round_half_even n u =
     (let q = n div u; r = n mod u
      in if 2 * r < u then q else if 2 * r > u then q + 1
         else if even q then q else q + 1)"

text \<open>
  The double nearest to the integer \<open>n\<close>: \<open>n\<close> is rounded to 53 significant bits (an
  integer of fewer bits is kept), and a result of magnitude \<open>2^1024\<close> or more is
  infinite. \<open>bitlen\<close> is the number of bits of a positive integer.
\<close>

definition to_double :: "int \<Rightarrow> number" where
  "to_double n =
     (let ulp = 2 ^ nat (bitlen \<bar>n\<bar> - 53);
          m = round_half_even n ulp * ulp
      in if \<bar>m\<bar> \<ge> 2 ^ 1024 then NotFinite else Num m)"

text \<open>\<open>a + b\<close> and \<open>a * b\<close> of the code: the exact result, rounded.\<close>

fun js_add :: "number \<Rightarrow> number \<Rightarrow> number" where
  "js_add (Num a) (Num b) = to_double (a + b)"
| "js_add x y = NotFinite"

definition js_mul :: "int \<Rightarrow> int \<Rightarrow> number" where
  "js_mul a b = to_double (a * b)"

text \<open>
  For positive \<open>n\<close> and \<open>b\<close>, \<open>binade n b\<close> is the exponent \<open>e\<close> with
  \<open>2^e \<le> n / b < 2^(e + 1)\<close>.
\<close>

definition binade :: "int \<Rightarrow> int \<Rightarrow> int" where
  "binade n b =
     (let d = bitlen n - bitlen b
      in if (if d \<ge> 0 then b * 2 ^ nat d \<le> n else b \<le> n * 2 ^ nat (- d)) then d else d - 1)"

text \<open>
  \<open>Math.round(n / b)\<close> for \<open>n \<noteq> 0\<close> and \<open>b > 0\<close>. The quotient is rounded to the double
  \<open>q\<close> of 53 significant bits; from exponent 52 on \<open>q\<close> is an integer, and below it
  \<open>q\<close> is \<open>m / 2^j\<close>, of which \<open>Math.round\<close> takes the nearest integer, a tie going up:
  \<open>floor (q + 1/2)\<close>. (The quotient of a double by a total weight is neither infinite
  nor subnormal.)
\<close>

definition round_quotient :: "int \<Rightarrow> int \<Rightarrow> int" where
  "round_quotient n b =
     (let e = binade \<bar>n\<bar> b
      in if e \<ge> 52 then
           (let ulp = 2 ^ nat (e - 52) in round_half_even n (b * ulp) * ulp)
         else
           (let j = nat (52 - e); m = round_half_even (n * 2 ^ j) b
            in (2 * m + 2 ^ j) div 2 ^ (j + 1)))"

text \<open>
  \<open>Math.round(a / b)\<close> for a number \<open>a\<close> and an integer \<open>b\<close>. With \<open>b = 0\<close> the quotient
  is \<open>NaN\<close> or infinite, and so it is with \<open>a\<close> not finite; the result is then not a
  number: \<open>None\<close>.
\<close>

fun math_round_div :: "number \<Rightarrow> int \<Rightarrow> int option" where
  "math_round_div NotFinite b = None"
| "math_round_div (Num n) b =
     (if b = 0 then None
      else if n = 0 then Some 0
      else if b < 0 then Some (round_quotient (- n) (- b))
      else Some (round_quotient n b))"

subsection \<open>The function\<close>

text \<open>
  The accumulation loop of \<open>calculateDOR\<close>; the pair is \<open>(weightedSum, totalWeight)\<close>.
  The total weight is a sum of weights of at most 3000 each over an array of fewer than
  \<open>2^32\<close> elements, so its additions are exact.
\<close>

fun dor_loop :: "RateData list \<Rightarrow> number \<times> int \<Rightarrow> number \<times> int" where
  "dor_loop [] acc = acc"
| "dor_loop (r # rs) (weightedSum, totalWeight) =
     dor_loop rs (js_add weightedSum (js_mul (rate r) (weights (sourceId r))),
                  totalWeight + weights (sourceId r))"

text \<open>\<open>calculateDOR\<close> of the current collectors module, with its guard on a zero weight.\<close>

definition calculateDOR :: "RateData list \<Rightarrow> int option" where
  "calculateDOR rates =
     (case dor_loop rates (0, 0) of
        (weightedSum, totalWeight) \<Rightarrow>
          if totalWeight = 0 then Some 460
          else math_round_div weightedSum totalWeight)"

text \<open>
  \<open>calculateDOR\<close> of the earlier collectors module (\<open>src/oracle/collectors.ts\<close>): the
  same loop, no guard. Its \<open>RateData\<close> has no \<open>isLive\<close> field; the function reads
  \<open>sourceId\<close> and \<open>rate\<close> only.
\<close>

definition calculateDOR_v0 :: "RateData list \<Rightarrow> int option" where
  "calculateDOR_v0 rates =
     (case dor_loop rates (0, 0) of
        (weightedSum, totalWeight) \<Rightarrow> math_round_div weightedSum totalWeight)"

text \<open>
  The exact weighted sum and total weight of an observation set, for the statements,
  and the sources missing from a set.
\<close>

definition weightedSum :: "RateData list \<Rightarrow> int" where
  "weightedSum rates = (\<Sum>r\<leftarrow>rates. rate r * weights (sourceId r))"

definition totalWeight :: "RateData list \<Rightarrow> int" where
  "totalWeight rates = (\<Sum>r\<leftarrow>rates. weights (sourceId r))"

definition allSources :: "RateSourceId list" where
  "allSources = [TESR, METH, SOFR, AAVE_USDT, ONDO_USDY]"

definition absentSources :: "RateData list \<Rightarrow> RateSourceId list" where
  "absentSources rates = filter (\<lambda>s. s \<notin> sourceId ` set rates) allSources"

text \<open>The observation set of the end-to-end scenario.\<close>

definition obs :: "RateSourceId \<Rightarrow> string \<Rightarrow> int \<Rightarrow> bool \<Rightarrow> RateData" where
  "obs sid nm r live =
     \<lparr>sourceId = sid, name = nm, rate = r, timestamp = 0, source = ''test'', isLive = live\<rparr>"

definition scenario :: "RateData list" where
  "scenario = [obs TESR ''TESR'' 350 True, obs METH ''mETH'' 450 True,
               obs SOFR ''SOFR'' 460 True, obs AAVE_USDT ''Aave_USDT'' 550 True,
               obs ONDO_USDY ''Ondo_USDY'' 500 True]"

text \<open>Five observations, one per source, each with the rate \<open>2^53 - 1\<close>.\<close>

definition big_rates :: "RateData list" where
  "big_rates = map (\<lambda>s. obs s ''big'' 9007199254740991 True) allSources"

section \<open>Validation: \<open>validateRates\<close>\<close>

text \<open>
  The messages that \<open>validateRates\<close> pushes, one constructor per template literal, with
  the interpolated values as arguments:
  \<^item> \<open>TooFewSources n\<close>: "Only n/5 sources available (minimum 3 required)";
  \<^item> \<open>StaleData nm\<close>: "nm data is stale (> 24h old)";
  \<^item> \<open>NegativeRate nm r\<close>: "nm has negative rate: r/100 %";
  \<^item> \<open>HighRate nm r\<close>: "nm has unusually high rate: r/100 %";
  \<^item> \<open>FallbackWarning n\<close>: "n/5 sources using fallback values".
\<close>

datatype message =
    TooFewSources nat
  | StaleData string
  | NegativeRate string int
  | HighRate string int
  | FallbackWarning nat

record Validation =
  isValid :: bool
  warnings :: "message list"
  errors :: "message list"

definition maxAge :: int where
  "maxAge = 24 * 60 * 60 * 1000"

text \<open>The loop over stale data; \<open>now\<close> is the reading of \<open>Date.now()\<close>.\<close>

fun stale_loop :: "int \<Rightarrow> RateData list \<Rightarrow> message list \<Rightarrow> message list" where
  "stale_loop now [] ws = ws"
| "stale_loop now (r # rs) ws =
     stale_loop now rs (if now - timestamp r > maxAge then ws @ [StaleData (name r)] else ws)"

text \<open>The loop over extreme values; the pair is \<open>(warnings, errors)\<close>.\<close>

fun extreme_loop ::
  "RateData list \<Rightarrow> message list \<times> message list \<Rightarrow> message list \<times> message list" where
  "extreme_loop [] acc = acc"
| "extreme_loop (r # rs) (ws, es) =
     extreme_loop rs
       (if rate r > 5000 then ws @ [HighRate (name r) (rate r)] else ws,
        if rate r < 0 then es @ [NegativeRate (name r) (rate r)] else es)"

definition validateRates :: "int \<Rightarrow> RateData list \<Rightarrow> Validation" where
  "validateRates now rates =
     (let errors0 = (if length rates < 3 then [TooFewSources (length rates)] else []);
          warnings1 = stale_loop now rates [];
          (warnings2, errors2) = extreme_loop rates (warnings1, errors0);
          fallbackCount = length (filter (\<lambda>r. \<not> isLive r) rates);
          warnings3 = (if fallbackCount > 2 then warnings2 @ [FallbackWarning fallbackCount]
                       else warnings2)
      in \<lparr>isValid = (length errors2 = 0), warnings = warnings3, errors = errors2\<rparr>)"

section \<open>Thrown values\<close>

text \<open>
  What the oracle code throws. \<open>Null\<close> is the value \<open>null\<close>, which \<open>withRetry\<close> throws
  when its loop body never ran (\<open>throw lastError\<close> with \<open>lastError\<close> still \<open>null\<close>); every
  other constructor is an \<open>Error\<close> object:
  \<^item> \<open>CircuitOpen\<close>: "Circuit breaker is OPEN - refusing request";
  \<^item> \<open>HalfOpenExhausted\<close>: "Circuit breaker: too many half-open attempts, reopening";
  \<^item> \<open>GasPriceTooHigh p m\<close>: "Gas price too high: p > m";
  \<^item> \<open>TransactionFailed h\<close>: "Transaction failed: h";
  \<^item> \<open>NoRatesCollected\<close>, \<open>ValidationFailed\<close> (with the validation errors),
    \<open>OracleAddressNotSet\<close>, \<open>PrivateKeyNotSet\<close>, \<open>NotAuthorized\<close>: the errors of \<open>runUpdate\<close>;
  \<^item> \<open>TypeErrorNull\<close>: the \<open>TypeError\<close> of reading \<open>.message\<close> of \<open>null\<close>;
  \<^item> \<open>External m\<close>: an \<open>Error\<close> with message \<open>m\<close> raised by a collaborator (the HTTP
    client, a response parser, the RPC provider, the database).
\<close>

datatype exn =
    Null
  | CircuitOpen
  | HalfOpenExhausted
  | GasPriceTooHigh nat nat
  | TransactionFailed string
  | NoRatesCollected
  | ValidationFailed "message list"
  | OracleAddressNotSet
  | PrivateKeyNotSet
  | NotAuthorized
  | TypeErrorNull
  | External string

text \<open>
  An asynchronous operation is a function of the world \<open>'w\<close> (everything outside the
  process: endpoints, chain, clock) that returns what it threw or what it resolved to,
  and the world afterwards. A collaborator's failure carries its message.
\<close>

type_synonym ('a, 'w) task = "'w \<Rightarrow> (exn + 'a) \<times> 'w"

type_synonym ('a, 'w) call = "'w \<Rightarrow> (string + 'a) \<times> 'w"

definition ext :: "('a, 'w) call \<Rightarrow> ('a, 'w) task" where
  "ext c w = (case c w of (Inl m, w') \<Rightarrow> (Inl (External m), w') | (Inr v, w') \<Rightarrow> (Inr v, w'))"

definition bindE :: "('a, 'w) task \<Rightarrow> ('a \<Rightarrow> ('b, 'w) task) \<Rightarrow> ('b, 'w) task" where
  "bindE m f w = (case m w of (Inl e, w') \<Rightarrow> (Inl e, w') | (Inr v, w') \<Rightarrow> f v w')"

section \<open>Retry: the two \<open>withRetry\<close> functions\<close>

text \<open>
  \<open>interface CollectorConfig\<close> and \<open>DEFAULT_CONFIG\<close> of the collectors module. The pusher's
  \<open>RetryConfig\<close> has a field \<open>maxRetries\<close> too; here it is the collectors' one that
  carries a prefix.
\<close>

record CollectorConfig =
  c_maxRetries :: nat
  c_retryDelayMs :: int
  c_timeoutMs :: int

definition DEFAULT_CONFIG :: CollectorConfig where
  "DEFAULT_CONFIG = \<lparr>c_maxRetries = 3, c_retryDelayMs = 1000, c_timeoutMs = 15000\<rparr>"

text \<open>
  \<open>withRetry\<close> of the collectors module, from loop counter \<open>attempt\<close> and with the current
  \<open>lastError\<close>. \<open>sleep d\<close> is the wait \<open>setTimeout(resolve, d)\<close>.
\<close>

function collectors_retry_loop ::
  "CollectorConfig \<Rightarrow> (int \<Rightarrow> 'w \<Rightarrow> 'w) \<Rightarrow> ('a, 'w) task \<Rightarrow> nat \<Rightarrow> exn \<Rightarrow> ('a, 'w) task" where
  "collectors_retry_loop config sleep fn attempt lastError w =
     (if attempt \<le> c_maxRetries config then
        (case fn w of
           (Inr v, w') \<Rightarrow> (Inr v, w')
         | (Inl error, w') \<Rightarrow>
             collectors_retry_loop config sleep fn (Suc attempt) error
               (if attempt < c_maxRetries config
                then sleep (c_retryDelayMs config * 2 ^ (attempt - 1)) w' else w'))
      else (Inl lastError, w))"
  by pat_completeness auto
termination
  by (relation "measure (\<lambda>(config, sleep, fn, attempt, lastError, w).
                   Suc (c_maxRetries config) - attempt)") auto

definition collectors_withRetry ::
  "CollectorConfig \<Rightarrow> (int \<Rightarrow> 'w \<Rightarrow> 'w) \<Rightarrow> ('a, 'w) task \<Rightarrow> ('a, 'w) task" where
  "collectors_withRetry config sleep fn = collectors_retry_loop config sleep fn 1 Null"

text \<open>\<open>interface RetryConfig\<close> and \<open>DEFAULT_RETRY_CONFIG\<close> of the pusher module.\<close>

record RetryConfig =
  maxRetries :: nat
  baseDelayMs :: int
  maxDelayMs :: int
  backoffMultiplier :: int

definition DEFAULT_RETRY_CONFIG :: RetryConfig where
  "DEFAULT_RETRY_CONFIG =
     \<lparr>maxRetries = 3, baseDelayMs = 2000, maxDelayMs = 30000, backoffMultiplier = 2\<rparr>"

text \<open>
  \<open>withRetry\<close> of the pusher module. Before it waits it calls \<open>onRetry\<close>, when given, and
  logs \<open>lastError.message\<close>: with \<open>null\<close> caught, that read throws a \<open>TypeError\<close> out of
  the \<open>catch\<close> block.
\<close>

function retry_loop ::
  "RetryConfig \<Rightarrow> (int \<Rightarrow> 'w \<Rightarrow> 'w) \<Rightarrow> (nat \<Rightarrow> exn \<Rightarrow> 'w \<Rightarrow> 'w) option \<Rightarrow>
   ('a, 'w) task \<Rightarrow> nat \<Rightarrow> exn \<Rightarrow> ('a, 'w) task" where
  "retry_loop config sleep onRetry fn attempt lastError w =
     (if attempt \<le> maxRetries config then
        (case fn w of
           (Inr v, w') \<Rightarrow> (Inr v, w')
         | (Inl error, w') \<Rightarrow>
             if attempt < maxRetries config then
               (let delay = min (baseDelayMs config * backoffMultiplier config ^ (attempt - 1))
                                (maxDelayMs config);
                    w'' = (case onRetry of None \<Rightarrow> w' | Some cb \<Rightarrow> cb attempt error w')
                in if error = Null then (Inl TypeErrorNull, w'')
                   else retry_loop config sleep onRetry fn (Suc attempt) error (sleep delay w''))
             else retry_loop config sleep onRetry fn (Suc attempt) error w')
      else (Inl lastError, w))"
  by pat_completeness auto
termination
  by (relation "measure (\<lambda>(config, sleep, onRetry, fn, attempt, lastError, w).
                   Suc (maxRetries config) - attempt)") auto

definition withRetry ::
  "RetryConfig \<Rightarrow> (int \<Rightarrow> 'w \<Rightarrow> 'w) \<Rightarrow> (nat \<Rightarrow> exn \<Rightarrow> 'w \<Rightarrow> 'w) option \<Rightarrow>
   ('a, 'w) task \<Rightarrow> ('a, 'w) task" where
  "withRetry config sleep onRetry fn = retry_loop config sleep onRetry fn 1 Null"

section \<open>The circuit breaker\<close>

datatype CircuitState = CLOSED | OPEN | HALF_OPEN

record CircuitBreakerConfig =
  failureThreshold :: nat
  resetTimeoutMs :: int
  halfOpenMaxAttempts :: nat

text \<open>The private fields of \<open>class CircuitBreaker\<close>, with their initial values.\<close>

record CircuitBreaker =
  state :: CircuitState
  failureCount :: nat
  lastFailureTime :: int
  halfOpenAttempts :: nat

definition new_CircuitBreaker :: CircuitBreaker where
  "new_CircuitBreaker =
     \<lparr>state = CLOSED, failureCount = 0, lastFailureTime = 0, halfOpenAttempts = 0\<rparr>"

definition onSuccess :: "CircuitBreaker \<Rightarrow> CircuitBreaker" where
  "onSuccess cb =
     (let cb1 = cb\<lparr>failureCount := 0\<rparr>
      in if state cb1 = HALF_OPEN then cb1\<lparr>state := CLOSED\<rparr> else cb1)"

definition onFailure :: "CircuitBreakerConfig \<Rightarrow> int \<Rightarrow> CircuitBreaker \<Rightarrow> CircuitBreaker" where
  "onFailure config now cb =
     (let cb1 = cb\<lparr>failureCount := failureCount cb + 1, lastFailureTime := now\<rparr>
      in if failureCount cb1 \<ge> failureThreshold config then cb1\<lparr>state := OPEN\<rparr> else cb1)"

text \<open>
  The part of \<open>execute\<close> before the guarded call, at clock reading \<open>now\<close>: the \<open>OPEN\<close>
  check and the \<open>HALF_OPEN\<close> check. It gives what is thrown, if anything, and the
  fields afterwards.
\<close>

definition admit ::
  "CircuitBreakerConfig \<Rightarrow> int \<Rightarrow> CircuitBreaker \<Rightarrow> exn option \<times> CircuitBreaker" where
  "admit config now cb =
     (if state cb = OPEN \<and> \<not> (now - lastFailureTime cb \<ge> resetTimeoutMs config)
      then (Some CircuitOpen, cb)
      else
        (let cb1 = (if state cb = OPEN then cb\<lparr>state := HALF_OPEN, halfOpenAttempts := 0\<rparr>
                    else cb);
             cb2 = (if state cb1 = HALF_OPEN
                    then cb1\<lparr>halfOpenAttempts := halfOpenAttempts cb1 + 1\<rparr> else cb1)
         in if state cb2 = HALF_OPEN \<and> halfOpenAttempts cb2 > halfOpenMaxAttempts config
            then (Some HalfOpenExhausted, cb2\<lparr>state := OPEN, lastFailureTime := now\<rparr>)
            else (None, cb2)))"

text \<open>
  \<open>execute\<close>: \<open>now\<close> reads \<open>Date.now()\<close> off the world; the breaker is threaded through
  beside the world.
\<close>

definition execute ::
  "CircuitBreakerConfig \<Rightarrow> ('w \<Rightarrow> int) \<Rightarrow> ('a, 'w) task \<Rightarrow>
   CircuitBreaker \<times> 'w \<Rightarrow> (exn + 'a) \<times> CircuitBreaker \<times> 'w" where
  "execute config now fn = (\<lambda>(cb, w).
     case admit config (now w) cb of
       (Some error, cb') \<Rightarrow> (Inl error, cb', w)
     | (None, cb2) \<Rightarrow>
         (case fn w of
            (Inr result, w') \<Rightarrow> (Inr result, onSuccess cb2, w')
          | (Inl error, w') \<Rightarrow> (Inl error, onFailure config (now w') cb2, w')))"

section \<open>The collectors\<close>

text \<open>
  What a collector reaches outside the process. \<open>endpoint sid i\<close> is one attempt at
  candidate \<open>i\<close> of the collector of \<open>sid\<close>: the HTTP request and the candidate's parser
  (with the check of \<open>collectTESR\<close> that the parsed value is there and not \<open>NaN\<close>); it
  fails with a message or gives the parsed percentage, of a type \<open>'p\<close> left open.
  \<open>toBps p\<close> is \<open>Math.round(p * 100)\<close>.
\<close>

record ('p, 'w) net =
  endpoint :: "RateSourceId \<Rightarrow> nat \<Rightarrow> ('p, 'w) call"
  toBps :: "'p \<Rightarrow> int"
  net_now :: "'w \<Rightarrow> int"
  net_sleep :: "int \<Rightarrow> 'w \<Rightarrow> 'w"

text \<open>
  The loop \<open>for (const source of sources)\<close> that the five collectors share: each
  candidate is a pair of the \<open>source\<close> string of its observation and its index. The
  \<open>catch\<close> block reads \<open>(error as Error).message\<close>, which throws on \<open>null\<close>. The loop
  gives \<open>Inr None\<close> when it falls through.
\<close>

fun collect_loop ::
  "CollectorConfig \<Rightarrow> ('p, 'w) net \<Rightarrow> RateSourceId \<Rightarrow> string \<Rightarrow> (string \<times> nat) list \<Rightarrow>
   (RateData option, 'w) task" where
  "collect_loop config net sid nm [] w = (Inr None, w)"
| "collect_loop config net sid nm ((origin, i) # rest) w =
     (case collectors_withRetry config (net_sleep net) (ext (endpoint net sid i)) w of
        (Inr p, w') \<Rightarrow>
          (Inr (Some \<lparr>sourceId = sid, name = nm, rate = toBps net p,
                      timestamp = net_now net w', source = origin, isLive = True\<rparr>), w')
      | (Inl error, w') \<Rightarrow>
          if error = Null then (Inl TypeErrorNull, w')
          else collect_loop config net sid nm rest w')"

definition fallback :: "RateSourceId \<Rightarrow> string \<Rightarrow> int \<Rightarrow> int \<Rightarrow> RateData" where
  "fallback sid nm r now =
     \<lparr>sourceId = sid, name = nm, rate = r, timestamp = now, source = ''Fallback'',
      isLive = False\<rparr>"

definition collect_from ::
  "RateSourceId \<Rightarrow> string \<Rightarrow> (string \<times> nat) list \<Rightarrow> int \<Rightarrow>
   CollectorConfig \<Rightarrow> ('p, 'w) net \<Rightarrow> (RateData, 'w) task" where
  "collect_from sid nm sources fallbackRate config net w =
     (case collect_loop config net sid nm sources w of
        (Inl error, w') \<Rightarrow> (Inl error, w')
      | (Inr (Some result), w') \<Rightarrow> (Inr result, w')
      | (Inr None, w') \<Rightarrow> (Inr (fallback sid nm fallbackRate (net_now net w')), w'))"

definition collectTESR :: "CollectorConfig \<Rightarrow> ('p, 'w) net \<Rightarrow> (RateData, 'w) task" where
  "collectTESR =
     collect_from TESR ''TESR'' [(''api.treehouse.finance'', 0), (''yields.llama.fi'', 1)] 350"

definition collectMETH :: "CollectorConfig \<Rightarrow> ('p, 'w) net \<Rightarrow> (RateData, 'w) task" where
  "collectMETH = collect_from METH ''mETH'' [(''Mantle API'', 0), (''Mantle API'', 1)] 450"

definition collectSOFR :: "CollectorConfig \<Rightarrow> ('p, 'w) net \<Rightarrow> (RateData, 'w) task" where
  "collectSOFR =
     collect_from SOFR ''SOFR'' [(''markets.newyorkfed.org'', 0), (''api.stlouisfed.org'', 1)] 460"

definition collectAaveUSDT :: "CollectorConfig \<Rightarrow> ('p, 'w) net \<Rightarrow> (RateData, 'w) task" where
  "collectAaveUSDT =
     collect_from AAVE_USDT ''Aave_USDT'' [(''Aave API'', 0), (''Aave API'', 1)] 550"

definition collectOndoUSDY :: "CollectorConfig \<Rightarrow> ('p, 'w) net \<Rightarrow> (RateData, 'w) task" where
  "collectOndoUSDY =
     collect_from ONDO_USDY ''Ondo_USDY''
       [(''Ondo API'', 0), (''Ondo API'', 1), (''Ondo API'', 2)] 500"

text \<open>The collector of each source, in the order of \<open>collectAllRates\<close>.\<close>

fun collector :: "RateSourceId \<Rightarrow> CollectorConfig \<Rightarrow> ('p, 'w) net \<Rightarrow> (RateData, 'w) task" where
  "collector TESR = collectTESR"
| "collector METH = collectMETH"
| "collector SOFR = collectSOFR"
| "collector AAVE_USDT = collectAaveUSDT"
| "collector ONDO_USDY = collectOndoUSDY"

text \<open>The hardcoded rate and the display name of each collector's last \<open>return\<close>.\<close>

fun fallbackRate :: "RateSourceId \<Rightarrow> int" where
  "fallbackRate TESR = 350"
| "fallbackRate METH = 450"
| "fallbackRate SOFR = 460"
| "fallbackRate AAVE_USDT = 550"
| "fallbackRate ONDO_USDY = 500"

fun displayName :: "RateSourceId \<Rightarrow> string" where
  "displayName TESR = ''TESR''"
| "displayName METH = ''mETH''"
| "displayName SOFR = ''SOFR''"
| "displayName AAVE_USDT = ''Aave_USDT''"
| "displayName ONDO_USDY = ''Ondo_USDY''"

section \<open>The pusher\<close>

text \<open>
  The receipt of ethers (its fields carry a prefix: \<open>PushResult\<close> has \<open>gasUsed\<close> and
  \<open>blockNumber\<close> too), and what \<open>RatePusher\<close> reaches on the chain. \<open>scaleGas e\<close> is
  \<open>BigInt(Math.ceil(Number(e) * multiplier))\<close>, floating point that is left open, with
  \<open>None\<close> when the conversion throws.
  \<open>rpc_batchUpdateRates\<close> submits the transaction and gives its hash; \<open>rpc_wait\<close> is
  \<open>tx.wait(1)\<close>.
\<close>

record TransactionReceipt =
  receipt_hash :: string
  receipt_status :: "nat option"
  receipt_gasUsed :: nat
  receipt_blockNumber :: nat

record 'w chain =
  clock_now :: "'w \<Rightarrow> int"
  clock_sleep :: "int \<Rightarrow> 'w \<Rightarrow> 'w"
  rpc_estimateGas :: "RateSourceId list \<Rightarrow> int list \<Rightarrow> (nat, 'w) call"
  scaleGas :: "nat \<Rightarrow> nat option"
  rpc_getFeeData :: "(nat option, 'w) call"
  rpc_batchUpdateRates :: "RateSourceId list \<Rightarrow> int list \<Rightarrow> nat \<Rightarrow> (string, 'w) call"
  rpc_wait :: "string \<Rightarrow> (TransactionReceipt option, 'w) call"
  rpc_getDOR :: "(int, 'w) call"
  rpc_authorizedUpdaters :: "(bool, 'w) call"

text \<open>
  Of \<open>interface PushConfig\<close>, the field that the push reads; the connection strings
  are part of the chain above, \<open>gasLimitMultiplier\<close> of \<open>scaleGas\<close>.
\<close>

record PushConfig =
  maxGasPrice :: "nat option"

record PushResult =
  txHash :: string
  oldDOR :: int
  newDOR :: int
  localDOR :: "int option"
  gasUsed :: nat
  blockNumber :: nat

text \<open>The configuration that the constructor of \<open>RatePusher\<close> gives its breaker.\<close>

definition breakerConfig :: CircuitBreakerConfig where
  "breakerConfig =
     \<lparr>failureThreshold = 3, resetTimeoutMs = 5 * 60 * 1000, halfOpenMaxAttempts = 2\<rparr>"

definition isAuthorized :: "'w chain \<Rightarrow> 'w \<Rightarrow> bool \<times> 'w" where
  "isAuthorized chain w =
     (case rpc_authorizedUpdaters chain w of
        (Inr b, w') \<Rightarrow> (b, w')
      | (Inl m, w') \<Rightarrow> (False, w'))"

definition getCurrentDOR :: "'w chain \<Rightarrow> (int, 'w) task" where
  "getCurrentDOR chain = ext (rpc_getDOR chain)"

definition estimateGas :: "'w chain \<Rightarrow> RateData list \<Rightarrow> 'w \<Rightarrow> nat \<times> 'w" where
  "estimateGas chain rates w =
     (case rpc_estimateGas chain (map sourceId rates) (map rate rates) w of
        (Inr estimate, w') \<Rightarrow>
          (case scaleGas chain estimate of Some gasLimit \<Rightarrow> gasLimit | None \<Rightarrow> 500000, w')
      | (Inl m, w') \<Rightarrow> (500000, w'))"

text \<open>
  The end of one submission: send the transaction, wait for one confirmation, check
  the receipt.
\<close>

definition send_and_wait :: "'w chain \<Rightarrow> RateData list \<Rightarrow> nat \<Rightarrow> (TransactionReceipt, 'w) task" where
  "send_and_wait chain rates gasLimit =
     bindE (ext (rpc_batchUpdateRates chain (map sourceId rates) (map rate rates) gasLimit))
       (\<lambda>tx. bindE (ext (rpc_wait chain tx))
          (\<lambda>receipt w. case receipt of
               None \<Rightarrow> (Inl (TransactionFailed tx), w)
             | Some r \<Rightarrow>
                 if receipt_status r \<noteq> Some 1 then (Inl (TransactionFailed tx), w)
                 else (Inr r, w)))"

text \<open>
  The function that \<open>pushBatchRates\<close> hands to \<open>withRetry\<close>: one submission. The test
  \<open>this.config.maxGasPrice && gasPrice > this.config.maxGasPrice\<close> is false for an
  absent cap and for \<open>0n\<close>.
\<close>

definition submitOnce :: "'w chain \<Rightarrow> PushConfig \<Rightarrow> RateData list \<Rightarrow> (TransactionReceipt, 'w) task" where
  "submitOnce chain config rates w =
     (case estimateGas chain rates w of
        (gasLimit, w1) \<Rightarrow>
          bindE (ext (rpc_getFeeData chain)) (\<lambda>feeData.
            let gasPrice = (case feeData of None \<Rightarrow> 0 | Some g \<Rightarrow> g)
            in case maxGasPrice config of
                 Some cap \<Rightarrow>
                   if cap \<noteq> 0 \<and> gasPrice > cap
                   then (\<lambda>w2. (Inl (GasPriceTooHigh gasPrice cap), w2))
                   else send_and_wait chain rates gasLimit
               | None \<Rightarrow> send_and_wait chain rates gasLimit) w1)"

definition pushBatchRates ::
  "'w chain \<Rightarrow> PushConfig \<Rightarrow> RateData list \<Rightarrow>
   CircuitBreaker \<times> 'w \<Rightarrow> (exn + TransactionReceipt) \<times> CircuitBreaker \<times> 'w" where
  "pushBatchRates chain config rates =
     execute breakerConfig (clock_now chain)
       (withRetry DEFAULT_RETRY_CONFIG (clock_sleep chain) (Some (\<lambda>attempt error w. w))
          (submitOnce chain config rates))"

definition fullUpdate ::
  "'w chain \<Rightarrow> PushConfig \<Rightarrow> RateData list \<Rightarrow>
   CircuitBreaker \<times> 'w \<Rightarrow> (exn + PushResult) \<times> CircuitBreaker \<times> 'w" where
  "fullUpdate chain config rates = (\<lambda>(cb, w).
     case getCurrentDOR chain w of
       (Inl error, w1) \<Rightarrow> (Inl error, cb, w1)
     | (Inr old, w1) \<Rightarrow>
         (case pushBatchRates chain config rates (cb, w1) of
            (Inl error, cb', w2) \<Rightarrow> (Inl error, cb', w2)
          | (Inr receipt, cb', w2) \<Rightarrow>
              (case getCurrentDOR chain w2 of
                 (Inl error, w3) \<Rightarrow> (Inl error, cb', w3)
               | (Inr new, w3) \<Rightarrow>
                   (Inr \<lparr>txHash = receipt_hash receipt, oldDOR = old, newDOR = new,
                         localDOR = calculateDOR rates, gasUsed = receipt_gasUsed receipt,
                         blockNumber = receipt_blockNumber receipt\<rparr>, cb', w3))))"

section \<open>The runner: \<open>runUpdate\<close>\<close>

text \<open>
  The fields of \<open>config\<close> that \<open>runUpdate\<close> reads, and its other collaborators:
  \<^item> \<open>collectAll\<close> is \<open>collectAllRates(provider)\<close>, a join with \<open>Promise.allSettled\<close> that
    gives the observations of the collectors that did not reject;
  \<^item> \<open>new_RatePusher\<close> is the constructor, which builds the ethers objects;
  \<^item> \<open>pusher_dryRun\<close> is \<open>RatePusher.dryRun\<close>, whose body is one \<open>try\<close>/\<open>catch\<close>;
  \<^item> \<open>db_log\<close> is the \<open>db.log\<close> of the \<open>catch\<close> block;
  \<^item> \<open>db_save\<close> is the \<open>try\<close> block of \<open>saveToDatabase\<close> (\<open>db.saveDORUpdate\<close>, then
    \<open>db.log\<close>), whose failure is caught there.
\<close>

record Config =
  oracleAddress :: string
  privateKey :: string
  useDatabase :: bool

record 'w collab =
  collectAll :: "'w \<Rightarrow> RateData list \<times> 'w"
  new_RatePusher :: "(unit, 'w) call"
  pusher_dryRun :: "RateData list \<Rightarrow> 'w \<Rightarrow> 'w"
  db_log :: "exn \<Rightarrow> (unit, 'w) call"
  db_save :: "RateData list \<Rightarrow> int option \<Rightarrow> PushResult option \<Rightarrow> exn option \<Rightarrow> 'w \<Rightarrow> 'w"

definition saveToDatabase ::
  "Config \<Rightarrow> 'w collab \<Rightarrow> RateData list \<Rightarrow> int option \<Rightarrow> PushResult option \<Rightarrow>
   exn option \<Rightarrow> 'w \<Rightarrow> 'w" where
  "saveToDatabase config collab rates dor result error w =
     (if \<not> useDatabase config then w else db_save collab rates dor result error w)"

text \<open>
  The \<open>try\<close> block of \<open>runUpdate\<close> after the collection: what it throws or the
  \<open>pushResult\<close> it leaves, the variable \<open>dor\<close>, and the world. The pusher of a live run
  is built from \<open>config\<close>, which has no \<open>maxGasPrice\<close>, and its breaker is new.
\<close>

definition run_try ::
  "Config \<Rightarrow> 'w chain \<Rightarrow> 'w collab \<Rightarrow> bool \<Rightarrow> RateData list \<Rightarrow> 'w \<Rightarrow>
   (exn + PushResult option) \<times> int option \<times> 'w" where
  "run_try config chain collab dryRun rates w =
     (if length rates = 0 then (Inl NoRatesCollected, Some 0, w)
      else
        (let validation = validateRates (clock_now chain w) rates
         in if \<not> isValid validation
            then (Inl (ValidationFailed (errors validation)), Some 0, w)
            else
              (let dor = calculateDOR rates
               in if dryRun then
                    (if oracleAddress config \<noteq> [] \<and> privateKey config \<noteq> [] then
                       (case ext (new_RatePusher collab) w of
                          (Inl error, w1) \<Rightarrow> (Inl error, dor, w1)
                        | (Inr u, w1) \<Rightarrow> (Inr None, dor, pusher_dryRun collab rates w1))
                     else (Inr None, dor, w))
                  else if oracleAddress config = [] then (Inl OracleAddressNotSet, dor, w)
                  else if privateKey config = [] then (Inl PrivateKeyNotSet, dor, w)
                  else
                    (case ext (new_RatePusher collab) w of
                       (Inl error, w1) \<Rightarrow> (Inl error, dor, w1)
                     | (Inr u, w1) \<Rightarrow>
                         (case isAuthorized chain w1 of
                            (isAuth, w2) \<Rightarrow>
                              if \<not> isAuth then (Inl NotAuthorized, dor, w2)
                              else
                                (case fullUpdate chain \<lparr>maxGasPrice = None\<rparr> rates
                                        (new_CircuitBreaker, w2) of
                                   (Inl error, cb, w3) \<Rightarrow> (Inl error, dor, w3)
                                 | (Inr pushResult, cb, w3) \<Rightarrow>
                                     (Inr (Some pushResult), dor, w3)))))))"

text \<open>The \<open>finally\<close> block.\<close>

definition run_finally ::
  "Config \<Rightarrow> 'w collab \<Rightarrow> bool \<Rightarrow> RateData list \<Rightarrow> int option \<Rightarrow> PushResult option \<Rightarrow>
   exn option \<Rightarrow> 'w \<Rightarrow> 'w" where
  "run_finally config collab dryRun rates dor pushResult updateError w =
     (if \<not> dryRun \<and> length rates > 0
      then saveToDatabase config collab rates dor pushResult updateError w else w)"

text \<open>
  \<open>runUpdate\<close>. Its \<open>catch\<close> block reads \<open>updateError.message\<close> first, which throws on
  \<open>null\<close> (and \<open>updateError\<close> is then falsy in \<open>finally\<close>); it logs to the database,
  rethrows, and \<open>finally\<close> runs.
\<close>

definition runUpdate :: "Config \<Rightarrow> 'w chain \<Rightarrow> 'w collab \<Rightarrow> bool \<Rightarrow> (unit, 'w) task" where
  "runUpdate config chain collab dryRun w =
     (case collectAll collab w of
        (rates, w0) \<Rightarrow>
          (case run_try config chain collab dryRun rates w0 of
             (Inr pushResult, dor, w1) \<Rightarrow>
               (Inr (), run_finally config collab dryRun rates dor pushResult None w1)
           | (Inl error, dor, w1) \<Rightarrow>
               if error = Null
               then (Inl TypeErrorNull, run_finally config collab dryRun rates dor None None w1)
               else if useDatabase config \<and> length rates > 0 then
                 (case db_log collab error w1 of
                    (Inl m, w2) \<Rightarrow>
                      (Inl (External m),
                       run_finally config collab dryRun rates dor None (Some error) w2)
                  | (Inr u, w2) \<Rightarrow>
                      (Inl error,
                       run_finally config collab dryRun rates dor None (Some error) w2))
               else (Inl error, run_finally config collab dryRun rates dor None (Some error) w1)))"

section \<open>Environments for the statements\<close>

text \<open>
  A world that counts: a clock and the number of invocations of the operation under
  study. \<open>scripted outcome\<close> is the operation whose \<open>k\<close>-th invocation (from \<open>0\<close>) ends as
  \<open>outcome k\<close> says; sleeping moves the clock.
\<close>

record sim =
  sim_clock :: int
  sim_calls :: nat

definition new_sim :: "int \<Rightarrow> sim" where
  "new_sim t = \<lparr>sim_clock = t, sim_calls = 0\<rparr>"

definition scripted :: "(nat \<Rightarrow> exn + 'a) \<Rightarrow> ('a, sim) task" where
  "scripted outcome w = (outcome (sim_calls w), w\<lparr>sim_calls := Suc (sim_calls w)\<rparr>)"

definition sim_sleep :: "int \<Rightarrow> sim \<Rightarrow> sim" where
  "sim_sleep d w = w\<lparr>sim_clock := sim_clock w + d\<rparr>"

text \<open>A network in which every request fails; the world counts the requests.\<close>

definition down_net :: "(int, sim) net" where
  "down_net =
     \<lparr>endpoint = (\<lambda>sid i w. (Inl ''timeout'', w\<lparr>sim_calls := Suc (sim_calls w)\<rparr>)),
      toBps = (\<lambda>p. p), net_now = sim_clock, net_sleep = sim_sleep\<rparr>"

text \<open>
  A chain that counts the readings of the fee data and the transactions sent. The
  \<open>k\<close>-th reading (from \<open>0\<close>) reports the gas price \<open>price k\<close>; gas estimation answers
  \<open>estimate\<close>; every transaction sent is confirmed with status \<open>1\<close>.
\<close>

record chain_sim =
  cs_clock :: int
  cs_feeReads :: nat
  cs_sends :: nat

definition new_chain_sim :: chain_sim where
  "new_chain_sim = \<lparr>cs_clock = 0, cs_feeReads = 0, cs_sends = 0\<rparr>"

definition sim_receipt :: "string \<Rightarrow> TransactionReceipt" where
  "sim_receipt tx =
     \<lparr>receipt_hash = tx, receipt_status = Some 1, receipt_gasUsed = 21000,
      receipt_blockNumber = 1\<rparr>"

definition sim_chain :: "(nat \<Rightarrow> nat) \<Rightarrow> string + nat \<Rightarrow> chain_sim chain" where
  "sim_chain price estimate =
     \<lparr>clock_now = cs_clock,
      clock_sleep = (\<lambda>d w. w\<lparr>cs_clock := cs_clock w + d\<rparr>),
      rpc_estimateGas = (\<lambda>ids rs w. (estimate, w)),
      scaleGas = Some,
      rpc_getFeeData =
        (\<lambda>w. (Inr (Some (price (cs_feeReads w))), w\<lparr>cs_feeReads := Suc (cs_feeReads w)\<rparr>)),
      rpc_batchUpdateRates = (\<lambda>ids rs gasLimit w. (Inr ''0xabc'', w\<lparr>cs_sends := Suc (cs_sends w)\<rparr>)),
      rpc_wait = (\<lambda>tx w. (Inr (Some (sim_receipt tx)), w)),
      rpc_getDOR = (\<lambda>w. (Inr 453, w)),
      rpc_authorizedUpdaters = (\<lambda>w. (Inr True, w))\<rparr>"

text \<open>
  Collaborators of the runner over the counting world: the collection gives a fixed
  list, every other call counts one invocation.
\<close>

definition sim_collab :: "RateData list \<Rightarrow> sim collab" where
  "sim_collab rates =
     \<lparr>collectAll = (\<lambda>w. (rates, w)),
      new_RatePusher = (\<lambda>w. (Inr (), w\<lparr>sim_calls := Suc (sim_calls w)\<rparr>)),
      pusher_dryRun = (\<lambda>rs w. w\<lparr>sim_calls := Suc (sim_calls w)\<rparr>),
      db_log = (\<lambda>error w. (Inr (), w)),
      db_save = (\<lambda>rs dor result error w. w)\<rparr>"

text \<open>A chain over the counting world: every call to it counts one invocation.\<close>

definition counting_chain :: "sim chain" where
  "counting_chain =
     \<lparr>clock_now = sim_clock,
      clock_sleep = sim_sleep,
      rpc_estimateGas = (\<lambda>ids rs w. (Inr 100000, w\<lparr>sim_calls := Suc (sim_calls w)\<rparr>)),
      scaleGas = Some,
      rpc_getFeeData = (\<lambda>w. (Inr (Some 1), w\<lparr>sim_calls := Suc (sim_calls w)\<rparr>)),
      rpc_batchUpdateRates =
        (\<lambda>ids rs gasLimit w. (Inr ''0xabc'', w\<lparr>sim_calls := Suc (sim_calls w)\<rparr>)),
      rpc_wait = (\<lambda>tx w. (Inr (Some (sim_receipt tx)), w\<lparr>sim_calls := Suc (sim_calls w)\<rparr>)),
      rpc_getDOR = (\<lambda>w. (Inr 453, w\<lparr>sim_calls := Suc (sim_calls w)\<rparr>)),
      rpc_authorizedUpdaters = (\<lambda>w. (Inr True, w\<lparr>sim_calls := Suc (sim_calls w)\<rparr>))\<rparr>"

text \<open>The five fallback observations, as the collectors build them (at time \<open>0\<close>).\<close>

definition fallbacks :: "RateData list" where
  "fallbacks = map (\<lambda>s. fallback s (displayName s) (fallbackRate s) 0) allSources"

declare collectors_retry_loop.simps [simp del]

declare retry_loop.simps [simp del]

declare math_round_div.simps [simp del]

section \<open>Properties of the double arithmetic\<close>

lemma round_half_even_cases:
  assumes "0 < u"
  obtains m r where "n = m * u + r" "0 \<le> r" "r < u"
    "round_half_even n u = (if 2 * r < u then m else if 2 * r > u then m + 1
                            else if even m then m else m + 1)"
proof -
  have "n = (n div u) * u + n mod u" by simp
  moreover have "0 \<le> n mod u" "n mod u < u" using assms by simp_all
  moreover have "round_half_even n u =
      (if 2 * (n mod u) < u then n div u else if 2 * (n mod u) > u then n div u + 1
       else if even (n div u) then n div u else n div u + 1)"
    by (simp add: round_half_even_def Let_def)
  ultimately show thesis by (rule that)
qed

lemma round_half_even_bounds:
  assumes "0 < u"
  shows "2 * (round_half_even n u * u) - u \<le> 2 * n \<and> 2 * n \<le> 2 * (round_half_even n u * u) + u"
proof -
  obtain m r where n: "n = m * u + r" and r: "0 \<le> r" "r < u"
    and v: "round_half_even n u = (if 2 * r < u then m else if 2 * r > u then m + 1
                            else if even m then m else m + 1)"
    using round_half_even_cases [OF assms] by blast
  consider "round_half_even n u = m" "2 * r \<le> u" | "round_half_even n u = m + 1" "u \<le> 2 * r"
    using v by (auto split: if_splits)
  then show ?thesis
  proof cases
    case 1
    with n r show ?thesis by (simp add: algebra_simps)
  next
    case 2
    with n r show ?thesis by (simp add: algebra_simps)
  qed
qed

lemma round_half_even_exact:
  assumes "0 < u" "u dvd n"
  shows "round_half_even n u = n div u"
  using assms by (simp add: round_half_even_def Let_def)

lemma to_double_exact:
  assumes "\<bar>n\<bar> < 2 ^ 53"
  shows "to_double n = Num n"
proof -
  have "bitlen \<bar>n\<bar> \<le> 53" using assms by (simp add: bitlen_le_iff_power)
  then have u: "nat (bitlen \<bar>n\<bar> - 53) = 0" by simp
  have "\<bar>n\<bar> < 2 ^ 1024" using assms by (rule less_trans) simp
  then show ?thesis
    by (simp add: to_double_def u round_half_even_exact Let_def)
qed


lemma binade_le: "binade n b \<le> bitlen n - bitlen b"
  by (simp add: binade_def Let_def)

lemma binade_bound:
  assumes "0 < b" "n \<le> 2 ^ 38 * b"
  shows "binade n b \<le> 38"
proof -
  have "b < 2 ^ nat (bitlen b)" using bitlen_bounds [OF assms(1)] by simp
  then have "2 ^ 38 * b < 2 ^ 38 * 2 ^ nat (bitlen b)" by simp
  with assms(2) have "n < 2 ^ (38 + nat (bitlen b))" by (simp add: power_add)
  moreover have "nat (38 + bitlen b) = 38 + nat (bitlen b)"
    using bitlen_nonneg [of b] by simp
  ultimately have "bitlen n \<le> 38 + bitlen b"
    using bitlen_nonneg [of b] by (simp add: bitlen_le_iff_power)
  with binade_le [of n b] show ?thesis by simp
qed

lemma nearest_half_up:
  fixes n b m P k :: int
  assumes b: "0 < b" and P: "b < P" and ev: "even P"
    and lo: "2 * (m * b) - b \<le> 2 * (n * P)" and hi: "2 * (n * P) \<le> 2 * (m * b) + b"
    and ex: "b dvd n * P \<Longrightarrow> m = n * P div b"
    and k: "k = (2 * n + b) div (2 * b)"
  shows "(2 * m + P) div (2 * P) = k"
proof -
  have kb: "2 * b * k \<le> 2 * n + b" "2 * n + b < 2 * b * (k + 1)"
  proof -
    have "2 * n + b = 2 * b * k + (2 * n + b) mod (2 * b)" unfolding k by simp
    moreover have "0 \<le> (2 * n + b) mod (2 * b)" "(2 * n + b) mod (2 * b) < 2 * b"
      using b by simp_all
    ultimately show "2 * b * k \<le> 2 * n + b" "2 * n + b < 2 * b * (k + 1)"
      by (simp_all add: algebra_simps)
  qed
  have P0: "0 < P" using b P by simp
  have up: "2 * m < (2 * k + 1) * P"
  proof -
    from kb(2) have "2 * n \<le> (2 * k + 1) * b - 1" by (simp add: algebra_simps)
    then have "2 * n * P \<le> ((2 * k + 1) * b - 1) * P"
      using P0 by (intro mult_right_mono) simp_all
    with lo have "2 * (m * b) \<le> ((2 * k + 1) * b - 1) * P + b" by (simp add: algebra_simps)
    also have "\<dots> = (2 * k + 1) * P * b - (P - b)" by (simp add: algebra_simps)
    also have "\<dots> < (2 * k + 1) * P * b" using P by simp
    finally have "(2 * m) * b < ((2 * k + 1) * P) * b" by (simp add: algebra_simps)
    then show ?thesis using b by (simp only: mult_less_cancel_right) simp?
  qed
  have low: "(2 * k - 1) * P \<le> 2 * m"
  proof (cases "2 * n = (2 * k - 1) * b")
    case True
    from ev obtain P' where P': "P = 2 * P'" by (auto elim: evenE)
    from True have "n * P = (2 * n) * P'" by (simp add: P')
    also have "\<dots> = ((2 * k - 1) * b) * P'" by (simp only: True)
    also have "\<dots> = ((2 * k - 1) * P') * b" by (simp only: mult.assoc mult.commute [of b P'])
    finally have np: "n * P = ((2 * k - 1) * P') * b" .
    then have "b dvd n * P" by simp
    from ex [OF this] have "m = (2 * k - 1) * P'" using b by (simp add: np)
    then show ?thesis by (simp add: P')
  next
    case False
    with kb(1) have "(2 * k - 1) * b + 1 \<le> 2 * n" by (simp add: algebra_simps)
    then have "((2 * k - 1) * b + 1) * P \<le> 2 * n * P"
      using P0 by (intro mult_right_mono) simp_all
    with hi have "((2 * k - 1) * b + 1) * P - b \<le> 2 * (m * b)" by (simp add: algebra_simps)
    moreover have "((2 * k - 1) * b + 1) * P - b = (2 * k - 1) * P * b + (P - b)"
      by (simp add: algebra_simps)
    ultimately have "((2 * k - 1) * P) * b < (2 * m) * b" using P by (simp add: algebra_simps)
    then have "(2 * k - 1) * P < 2 * m" using b by (simp only: mult_less_cancel_right) simp?
    then show ?thesis by simp
  qed
  have "2 * m + P = 2 * P * k + (2 * m + P - 2 * P * k)" by simp
  moreover have "0 \<le> 2 * m + P - 2 * P * k" using low by (simp add: algebra_simps)
  moreover have "2 * m + P - 2 * P * k < 2 * P" using up by (simp add: algebra_simps)
  ultimately show ?thesis using P0 by (intro int_div_pos_eq [where r = "2 * m + P - 2 * P * k"]) simp_all
qed

lemma round_quotient_exact:
  assumes "0 < b" "b < 2 ^ 14" "\<bar>n\<bar> \<le> 2 ^ 38 * b"
  shows "round_quotient n b = (2 * n + b) div (2 * b)"
proof -
  define e where "e = binade \<bar>n\<bar> b"
  define j where "j = nat (52 - e)"
  define m where "m = round_half_even (n * 2 ^ j) b"
  have e: "e \<le> 38" unfolding e_def using assms(1,3) by (rule binade_bound)
  then have j: "14 \<le> j" by (simp add: j_def)
  have "(2::int) ^ 14 \<le> 2 ^ j" using j by (intro power_increasing) simp_all
  with assms(2) have P: "b < 2 ^ j" by simp
  have ev: "even ((2::int) ^ j)" using j by simp
  have rq: "round_quotient n b = (2 * m + 2 ^ j) div (2 * 2 ^ j)"
    using e by (simp add: round_quotient_def Let_def e_def [symmetric] j_def [symmetric] m_def)
  from round_half_even_bounds [OF assms(1), of "n * 2 ^ j"]
  have lo: "2 * (m * b) - b \<le> 2 * (n * 2 ^ j)" and hi: "2 * (n * 2 ^ j) \<le> 2 * (m * b) + b"
    by (simp_all add: m_def)
  have ex: "b dvd n * 2 ^ j \<Longrightarrow> m = n * 2 ^ j div b"
    unfolding m_def using assms(1) by (rule round_half_even_exact)
  show ?thesis unfolding rq
    by (rule nearest_half_up [OF assms(1) P ev lo hi ex refl])
qed

lemma math_round_div_exact:
  assumes "0 < b" "b < 2 ^ 14" "\<bar>n\<bar> \<le> 2 ^ 38 * b"
  shows "math_round_div (Num n) b = Some ((2 * n + b) div (2 * b))"
proof (cases "n = 0")
  case True
  with assms(1) show ?thesis by (simp add: math_round_div.simps)
next
  case False
  with assms(1) show ?thesis by (simp add: math_round_div.simps round_quotient_exact [OF assms])
qed

section \<open>Properties of the aggregation\<close>

lemma weights_pos: "0 < weights s"
  by (cases s) simp_all

lemma totalWeight_nonneg: "0 \<le> totalWeight rates"
  unfolding totalWeight_def
  by (induction rates) (simp_all add: less_imp_le [OF weights_pos])

lemma totalWeight_pos: "rates \<noteq> [] \<Longrightarrow> 0 < totalWeight rates"
proof (cases rates)
  case Nil
  assume "rates \<noteq> []"
  with Nil show ?thesis by simp
next
  case (Cons r rs)
  have "totalWeight (r # rs) = weights (sourceId r) + totalWeight rs"
    by (simp add: totalWeight_def)
  with Cons weights_pos [of "sourceId r"] totalWeight_nonneg [of rs]
  show ?thesis by simp
qed

lemma dor_loop_weight: "snd (dor_loop rates (a, b)) = b + totalWeight rates"
  by (induction rates arbitrary: a b) (simp_all add: totalWeight_def)

text \<open>
  While the rates are at most \<open>2^38\<close> in magnitude and the weights sum to at most
  10000, every product and sum of the loop is below \<open>2^53\<close> and the loop is exact.
\<close>

lemma dor_loop_exact:
  assumes "\<forall>r\<in>set rates. \<bar>rate r\<bar> \<le> 2 ^ 38"
    and "\<bar>a\<bar> \<le> 2 ^ 38 * b" and "b + totalWeight rates \<le> 10000"
  shows "dor_loop rates (Num a, b) = (Num (a + weightedSum rates), b + totalWeight rates)"
  using assms
proof (induction rates arbitrary: a b)
  case Nil
  show ?case by (simp add: weightedSum_def totalWeight_def)
next
  case (Cons r rs)
  let ?w = "weights (sourceId r)"
  have w: "0 < ?w" by (rule weights_pos)
  have tw: "totalWeight (r # rs) = ?w + totalWeight rs" by (simp add: totalWeight_def)
  have ws: "weightedSum (r # rs) = rate r * ?w + weightedSum rs" by (simp add: weightedSum_def)
  from Cons.prems(1) have r: "\<bar>rate r\<bar> \<le> 2 ^ 38" by simp
  have b0: "0 \<le> b"
  proof (rule ccontr)
    assume "\<not> 0 \<le> b"
    then have "2 ^ 38 * b < 0" by (simp add: mult_less_0_iff)
    with Cons.prems(2) show False by simp
  qed
  from Cons.prems(3) totalWeight_nonneg [of rs] have bw: "b + ?w \<le> 10000" by (simp add: tw)
  have "\<bar>rate r * ?w\<bar> = \<bar>rate r\<bar> * ?w" using w by (simp add: abs_mult)
  also have "\<dots> \<le> 2 ^ 38 * ?w" using r w by (intro mult_right_mono) simp_all
  finally have p: "\<bar>rate r * ?w\<bar> \<le> 2 ^ 38 * ?w" .
  have s: "\<bar>a + rate r * ?w\<bar> \<le> 2 ^ 38 * (b + ?w)"
    using Cons.prems(2) p by (simp add: distrib_left)
  have "2 ^ 38 * ?w \<le> (2 ^ 38 * 10000 :: int)" using bw b0 by simp
  with p have "\<bar>rate r * ?w\<bar> < 2 ^ 53" by simp
  then have m: "js_mul (rate r) ?w = Num (rate r * ?w)"
    by (simp add: js_mul_def to_double_exact)
  have "2 ^ 38 * (b + ?w) \<le> (2 ^ 38 * 10000 :: int)" using bw by simp
  with s have "\<bar>a + rate r * ?w\<bar> < 2 ^ 53" by simp
  then have ad: "to_double (a + rate r * ?w) = Num (a + rate r * ?w)"
    by (rule to_double_exact)
  from Cons.prems(1) have rs: "\<forall>x\<in>set rs. \<bar>rate x\<bar> \<le> 2 ^ 38" by simp
  from Cons.prems(3) have le: "(b + ?w) + totalWeight rs \<le> 10000" by (simp add: tw)
  from Cons.IH [OF rs s le] show ?case by (simp add: m ad tw ws add.assoc)
qed

lemma weightedSum_bounds:
  assumes "\<forall>r\<in>set rates. lo \<le> rate r \<and> rate r \<le> hi"
  shows "lo * totalWeight rates \<le> weightedSum rates \<and> weightedSum rates \<le> hi * totalWeight rates"
  using assms
proof (induction rates)
  case Nil
  then show ?case by (simp add: weightedSum_def totalWeight_def)
next
  case (Cons r rs)
  have w: "0 < weights (sourceId r)" by (rule weights_pos)
  from Cons.prems have b: "lo \<le> rate r" "rate r \<le> hi" by simp_all
  from b w have 1: "lo * weights (sourceId r) \<le> rate r * weights (sourceId r)"
    by (simp add: mult_right_mono)
  from b w have 2: "rate r * weights (sourceId r) \<le> hi * weights (sourceId r)"
    by (simp add: mult_right_mono)
  from Cons have ih: "lo * totalWeight rs \<le> weightedSum rs" "weightedSum rs \<le> hi * totalWeight rs"
    by simp_all
  have ws: "weightedSum (r # rs) = rate r * weights (sourceId r) + weightedSum rs"
    by (simp add: weightedSum_def)
  have tw: "totalWeight (r # rs) = weights (sourceId r) + totalWeight rs"
    by (simp add: totalWeight_def)
  show ?case unfolding ws tw using 1 2 ih by (simp add: distrib_left)
qed

lemma round_div_bounds:
  fixes a b lo hi :: int
  assumes "0 < b" "lo * b \<le> a" "a \<le> hi * b"
  shows "lo \<le> (2 * a + b) div (2 * b) \<and> (2 * a + b) div (2 * b) \<le> hi"
proof
  have le: "lo * (2 * b) \<le> 2 * a + b" using assms by simp
  have "lo = (lo * (2 * b)) div (2 * b)" using assms(1) by simp
  also have "\<dots> \<le> (2 * a + b) div (2 * b)"
    using le assms(1) by (intro zdiv_mono1) simp_all
  finally show "lo \<le> (2 * a + b) div (2 * b)" .
next
  have le: "2 * a + b \<le> b + hi * (2 * b)" using assms by simp
  have "(2 * a + b) div (2 * b) \<le> (b + hi * (2 * b)) div (2 * b)"
    using le assms(1) by (intro zdiv_mono1) simp_all
  also have "\<dots> = hi" using assms(1) by simp
  finally show "(2 * a + b) div (2 * b) \<le> hi" .
qed

lemma UNIV_sources: "UNIV = set allSources"
proof -
  have "s \<in> set allSources" for s by (cases s) (simp_all add: allSources_def)
  then show ?thesis by blast
qed

lemma totalWeight_distinct:
  assumes "distinct (map sourceId rates)"
  shows "totalWeight rates = (\<Sum>s\<in>sourceId ` set rates. weights s)"
proof -
  have "totalWeight rates = sum_list (map weights (map sourceId rates))"
    by (simp add: totalWeight_def comp_def)
  also have "\<dots> = (\<Sum>s\<in>set (map sourceId rates). weights s)"
    using assms by (rule sum_list_distinct_conv_sum_set)
  finally show ?thesis by simp
qed

lemma absent_sum:
  "(\<Sum>s\<leftarrow>absentSources rates. weights s) = (\<Sum>s\<in>UNIV - sourceId ` set rates. weights s)"
proof -
  have d: "distinct (absentSources rates)" by (simp add: absentSources_def allSources_def)
  have "set (absentSources rates) = UNIV - sourceId ` set rates"
    by (auto simp: absentSources_def UNIV_sources [symmetric])
  with sum_list_distinct_conv_sum_set [OF d, of weights] show ?thesis by simp
qed

lemma finite_sources: "finite (A :: RateSourceId set)"
proof (rule finite_subset)
  show "A \<subseteq> set allSources" unfolding UNIV_sources [symmetric] by simp
  show "finite (set allSources)" by (rule finite_set)
qed

lemma sum_all_weights: "(\<Sum>s\<in>UNIV. weights s) = 10000"
proof -
  have "(\<Sum>s\<in>set allSources. weights s) = 10000" by (simp add: allSources_def)
  then show ?thesis by (simp only: UNIV_sources)
qed

lemma totalWeight_renormalized:
  assumes "distinct (map sourceId rates)"
  shows "totalWeight rates = 10000 - (\<Sum>s\<leftarrow>absentSources rates. weights s)"
proof -
  let ?P = "sourceId ` set rates"
  have "(\<Sum>s\<in>?P \<union> (UNIV - ?P). weights s) = (\<Sum>s\<in>?P. weights s) + (\<Sum>s\<in>UNIV - ?P. weights s)"
    by (rule sum.union_disjoint) (simp_all add: finite_sources)
  then have "(\<Sum>s\<in>UNIV. weights s) = (\<Sum>s\<in>?P. weights s) + (\<Sum>s\<in>UNIV - ?P. weights s)"
    by simp
  then show ?thesis
    by (simp add: totalWeight_distinct [OF assms] absent_sum sum_all_weights)
qed

lemma totalWeight_five:
  assumes "length rates = 5" "distinct (map sourceId rates)"
  shows "totalWeight rates = 10000"
proof -
  have "card (set (map sourceId rates)) = length (map sourceId rates)"
    using assms(2) by (rule distinct_card)
  then have "card (set (map sourceId rates)) = 5" using assms(1) by simp
  moreover have "card (UNIV :: RateSourceId set) = 5"
    by (simp add: UNIV_sources allSources_def)
  ultimately have "set (map sourceId rates) = UNIV"
    by (intro card_subset_eq) (simp_all add: finite_sources)
  then have "absentSources rates = []" by (simp add: absentSources_def)
  with totalWeight_renormalized [OF assms(2)] show ?thesis by simp
qed

lemma totalWeight_le:
  assumes "distinct (map sourceId rates)"
  shows "totalWeight rates \<le> 10000"
proof -
  have "0 \<le> (\<Sum>a\<leftarrow>absentSources rates. weights a)"
    by (rule sum_list_nonneg) (auto simp: less_imp_le [OF weights_pos])
  with totalWeight_renormalized [OF assms] show ?thesis by simp
qed

text \<open>
  On a non-empty set of distinct sources with rates of magnitude at most \<open>2^38\<close>, both
  versions of \<open>calculateDOR\<close> give the exact weighted mean, rounded to the nearest
  integer with a tie going up.
\<close>

lemma weighted_quotient_exact:
  assumes "rates \<noteq> []" and "distinct (map sourceId rates)"
    and "\<forall>r\<in>set rates. \<bar>rate r\<bar> \<le> 2 ^ 38"
  shows "dor_loop rates (0, 0) = (Num (weightedSum rates), totalWeight rates)"
    and "math_round_div (Num (weightedSum rates)) (totalWeight rates) =
           Some ((2 * weightedSum rates + totalWeight rates) div (2 * totalWeight rates))"
proof -
  have le: "totalWeight rates \<le> 10000" by (rule totalWeight_le [OF assms(2)])
  from dor_loop_exact [OF assms(3), of 0 0] le
  show "dor_loop rates (0, 0) = (Num (weightedSum rates), totalWeight rates)"
    by (simp add: zero_number_def)
  have pos: "0 < totalWeight rates" by (rule totalWeight_pos [OF assms(1)])
  from assms(3) have "\<forall>r\<in>set rates. - (2 ^ 38) \<le> rate r \<and> rate r \<le> 2 ^ 38"
    by (auto simp: abs_le_iff)
  from weightedSum_bounds [OF this]
  have "\<bar>weightedSum rates\<bar> \<le> 2 ^ 38 * totalWeight rates" by (simp add: abs_le_iff)
  moreover have "totalWeight rates < 2 ^ 14" using le by simp
  ultimately show "math_round_div (Num (weightedSum rates)) (totalWeight rates) =
           Some ((2 * weightedSum rates + totalWeight rates) div (2 * totalWeight rates))"
    using pos by (intro math_round_div_exact)
qed

lemma calculateDOR_exact:
  assumes "rates \<noteq> []" and "distinct (map sourceId rates)"
    and "\<forall>r\<in>set rates. \<bar>rate r\<bar> \<le> 2 ^ 38"
  shows "calculateDOR rates =
           Some ((2 * weightedSum rates + totalWeight rates) div (2 * totalWeight rates))"
  using totalWeight_pos [OF assms(1)]
  by (simp add: calculateDOR_def weighted_quotient_exact [OF assms])

lemma calculateDOR_v0_exact:
  assumes "rates \<noteq> []" and "distinct (map sourceId rates)"
    and "\<forall>r\<in>set rates. \<bar>rate r\<bar> \<le> 2 ^ 38"
  shows "calculateDOR_v0 rates =
           Some ((2 * weightedSum rates + totalWeight rates) div (2 * totalWeight rates))"
  by (simp add: calculateDOR_v0_def weighted_quotient_exact [OF assms])

lemma calculateDOR_Nil: "calculateDOR [] = Some 460"
  by (simp add: calculateDOR_def zero_number_def)

lemma scenario_sums: "weightedSum scenario = 4525000" "totalWeight scenario = 10000"
  by (simp_all add: weightedSum_def totalWeight_def scenario_def obs_def)

lemma scenario_facts:
  "scenario \<noteq> []" "distinct (map sourceId scenario)" "\<forall>r\<in>set scenario. \<bar>rate r\<bar> \<le> 2 ^ 38"
  by (simp_all add: scenario_def obs_def)

lemma scenario_dor: "calculateDOR scenario = Some 453"
  by (simp add: calculateDOR_exact [OF scenario_facts] scenario_sums)

lemma calculateDOR_bounds:
  assumes "rates \<noteq> []" and "distinct (map sourceId rates)"
    and "\<forall>r\<in>set rates. \<bar>rate r\<bar> \<le> 2 ^ 38"
  shows "\<exists>d. calculateDOR rates = Some d \<and>
             Min (rate ` set rates) \<le> d \<and> d \<le> Max (rate ` set rates)"
proof -
  let ?lo = "Min (rate ` set rates)" and ?hi = "Max (rate ` set rates)"
  have "\<forall>r\<in>set rates. ?lo \<le> rate r \<and> rate r \<le> ?hi" by simp
  then have b: "?lo * totalWeight rates \<le> weightedSum rates"
               "weightedSum rates \<le> ?hi * totalWeight rates"
    using weightedSum_bounds by blast+
  from round_div_bounds [OF totalWeight_pos [OF assms(1)] b]
  show ?thesis by (simp add: calculateDOR_exact [OF assms])
qed

subsection \<open>The end-to-end scenario\<close>

text \<open>
  C1 (as amended). On the observations TESR 350, METH 450, SOFR 460, AAVE_USDT 550 and
  ONDO_USDY 500, all live, \<open>calculateDOR\<close> gives 453: the weighted sum is 4525000, the
  total weight 10000, the quotient 452.5, and \<open>Math.round\<close> takes the tie up. Both
  versions of the function agree.
\<close>

theorem calculateDOR_scenario:
  "calculateDOR scenario = Some 453 \<and> calculateDOR_v0 scenario = Some 453"
  by (simp add: calculateDOR_exact [OF scenario_facts] calculateDOR_v0_exact [OF scenario_facts]
        scenario_sums)

text \<open>C1 as the specification words it: the result on the scenario is not 445.\<close>

theorem calculateDOR_scenario_not_445: "calculateDOR scenario \<noteq> Some 445"
  by (simp add: calculateDOR_exact [OF scenario_facts] scenario_sums)

subsection \<open>The result lies between the least and the greatest rate\<close>

text \<open>
  C6 (as amended). For five observations, one per source (so that the weights sum to
  10000), whose rates are integers of magnitude at most \<open>2^38\<close>, \<open>calculateDOR\<close> gives
  a number that lies between the minimum and the maximum of the observed rates, both
  included.
\<close>

theorem calculateDOR_between_min_max:
  assumes "length rates = 5" and "distinct (map sourceId rates)"
    and "\<forall>r\<in>set rates. \<bar>rate r\<bar> \<le> 2 ^ 38"
  shows "totalWeight rates = 10000 \<and> snd (dor_loop rates (0, 0)) = 10000 \<and>
         (\<exists>d. calculateDOR rates = Some d \<and>
              Min (rate ` set rates) \<le> d \<and> d \<le> Max (rate ` set rates))"
proof -
  from assms(1) have ne: "rates \<noteq> []" by auto
  from totalWeight_five [OF assms(1,2)] calculateDOR_bounds [OF ne assms(2,3)]
  show ?thesis by (simp add: dor_loop_weight)
qed

theorem calculateDOR_between_min_max_witness:
  "length scenario = 5 \<and> distinct (map sourceId scenario) \<and>
   list_all (\<lambda>r. \<bar>rate r\<bar> \<le> 2 ^ 38) scenario \<and>
   totalWeight scenario = 10000 \<and>
   (\<exists>d. calculateDOR scenario = Some d \<and>
        Min (rate ` set scenario) \<le> d \<and> d \<le> Max (rate ` set scenario))"
proof -
  have h: "length scenario = 5" by (simp add: scenario_def)
  from calculateDOR_between_min_max [OF h scenario_facts(2,3)] h scenario_facts(2,3)
  show ?thesis by (simp add: list_all_iff)
qed

text \<open>
  C6 as the specification words it, without a bound on the rates: on five observations
  with the rate \<open>2^53 - 1\<close> each, the products and sums are rounded and \<open>calculateDOR\<close>
  gives \<open>2^53 - 2\<close>, which is below the minimum of the rates.
\<close>

theorem calculateDOR_below_min:
  "length big_rates = 5 \<and> distinct (map sourceId big_rates) \<and>
   totalWeight big_rates = 10000 \<and>
   Min (rate ` set big_rates) = 9007199254740991 \<and>
   calculateDOR big_rates = Some 9007199254740990"
proof -
  have 1: "length big_rates = 5" "distinct (map sourceId big_rates)"
    by (simp_all add: big_rates_def allSources_def obs_def)
  have 2: "totalWeight big_rates = 10000"
    by (simp add: totalWeight_def big_rates_def allSources_def obs_def)
  have 3: "Min (rate ` set big_rates) = 9007199254740991"
    by (simp add: big_rates_def allSources_def obs_def)
  have 4: "calculateDOR big_rates = Some 9007199254740990"
    by code_simp
  from 1 2 3 4 show ?thesis by simp
qed

subsection \<open>Absent sources\<close>

text \<open>
  C7. When a source is absent from the observation set, the denominator that
  \<open>calculateDOR\<close> accumulates is 10000 less the weights of the absent sources, that is
  the weights of the present sources only, and the function still gives its result:
  the default 460 on the empty set, and otherwise \<open>Math.round\<close> of the weighted sum
  over that denominator. For rates that are integers of magnitude at most \<open>2^38\<close> this
  result is a number \<open>d\<close>, the nearest integer to the exact weighted mean over the
  present weights (a tie going up): \<open>d - 1/2 \<le> sum / denominator < d + 1/2\<close>.
\<close>

theorem calculateDOR_renormalizes:
  assumes "distinct (map sourceId rates)" and "s \<notin> sourceId ` set rates"
  shows "s \<in> set (absentSources rates) \<and>
         snd (dor_loop rates (0, 0)) = 10000 - (\<Sum>a\<leftarrow>absentSources rates. weights a) \<and>
         snd (dor_loop rates (0, 0)) \<le> 10000 - weights s \<and>
         calculateDOR rates =
           (if rates = [] then Some 460
            else math_round_div (fst (dor_loop rates (0, 0)))
                   (10000 - (\<Sum>a\<leftarrow>absentSources rates. weights a))) \<and>
         (rates \<noteq> [] \<and> (\<forall>r\<in>set rates. \<bar>rate r\<bar> \<le> 2 ^ 38) \<longrightarrow>
            (\<exists>d. calculateDOR rates = Some d \<and>
                 (2 * d - 1) * (10000 - (\<Sum>a\<leftarrow>absentSources rates. weights a))
                   \<le> 2 * (\<Sum>r\<leftarrow>rates. rate r * weights (sourceId r)) \<and>
                 2 * (\<Sum>r\<leftarrow>rates. rate r * weights (sourceId r))
                   < (2 * d + 1) * (10000 - (\<Sum>a\<leftarrow>absentSources rates. weights a))))"
proof -
  let ?D = "10000 - (\<Sum>a\<leftarrow>absentSources rates. weights a)"
  have mem: "s \<in> set (absentSources rates)"
    using assms(2) by (simp add: absentSources_def UNIV_sources [symmetric])
  have tw: "totalWeight rates = ?D"
    by (rule totalWeight_renormalized [OF assms(1)])
  have "weights s \<le> (\<Sum>a\<leftarrow>absentSources rates. weights a)"
    using mem by (intro member_le_sum_list) (auto simp: less_imp_le [OF weights_pos])
  with tw have le: "totalWeight rates \<le> 10000 - weights s" by simp
  have eq: "calculateDOR rates =
           (if rates = [] then Some 460
            else math_round_div (fst (dor_loop rates (0, 0))) ?D)"
  proof (cases "rates = []")
    case True
    then show ?thesis by (simp add: calculateDOR_Nil)
  next
    case False
    from totalWeight_pos [OF False] have nz: "totalWeight rates \<noteq> 0" by simp
    obtain x y where xy: "dor_loop rates (0, 0) = (x, y)" by (cases "dor_loop rates (0, 0)")
    with dor_loop_weight [of rates 0 0] have y: "y = totalWeight rates" by simp
    have "calculateDOR rates = math_round_div x y"
      using nz by (simp add: calculateDOR_def xy y)
    with False tw xy y show ?thesis by simp
  qed
  have val: "rates \<noteq> [] \<and> (\<forall>r\<in>set rates. \<bar>rate r\<bar> \<le> 2 ^ 38) \<longrightarrow>
            (\<exists>d. calculateDOR rates = Some d \<and>
                 (2 * d - 1) * ?D \<le> 2 * (\<Sum>r\<leftarrow>rates. rate r * weights (sourceId r)) \<and>
                 2 * (\<Sum>r\<leftarrow>rates. rate r * weights (sourceId r)) < (2 * d + 1) * ?D)"
  proof
    assume a: "rates \<noteq> [] \<and> (\<forall>r\<in>set rates. \<bar>rate r\<bar> \<le> 2 ^ 38)"
    then have ne: "rates \<noteq> []" and bd: "\<forall>r\<in>set rates. \<bar>rate r\<bar> \<le> 2 ^ 38" by simp_all
    let ?ws = "weightedSum rates" and ?tw = "totalWeight rates"
    define d where "d = (2 * ?ws + ?tw) div (2 * ?tw)"
    have pos: "0 < ?tw" by (rule totalWeight_pos [OF ne])
    have c: "calculateDOR rates = Some d"
      by (simp add: calculateDOR_exact [OF ne assms(1) bd] d_def)
    have dm: "2 * ?ws + ?tw = 2 * ?tw * d + (2 * ?ws + ?tw) mod (2 * ?tw)"
      unfolding d_def by simp
    have m: "0 \<le> (2 * ?ws + ?tw) mod (2 * ?tw)" "(2 * ?ws + ?tw) mod (2 * ?tw) < 2 * ?tw"
      using pos by simp_all
    from dm m have "(2 * d - 1) * ?tw \<le> 2 * ?ws" "2 * ?ws < (2 * d + 1) * ?tw"
      by (simp_all add: algebra_simps)
    with c show "\<exists>d. calculateDOR rates = Some d \<and>
                 (2 * d - 1) * ?D \<le> 2 * (\<Sum>r\<leftarrow>rates. rate r * weights (sourceId r)) \<and>
                 2 * (\<Sum>r\<leftarrow>rates. rate r * weights (sourceId r)) < (2 * d + 1) * ?D"
      unfolding tw [symmetric] weightedSum_def [symmetric] by blast
  qed
  from mem tw le have "s \<in> set (absentSources rates) \<and>
         snd (dor_loop rates (0, 0)) = ?D \<and> snd (dor_loop rates (0, 0)) \<le> 10000 - weights s"
    by (simp add: dor_loop_weight)
  with eq val show ?thesis by (intro conjI) simp_all
qed

theorem calculateDOR_renormalizes_witness:
  "distinct (map sourceId (take 3 scenario)) \<and>
   ONDO_USDY \<notin> sourceId ` set (take 3 scenario) \<and>
   take 3 scenario \<noteq> [] \<and> list_all (\<lambda>r. \<bar>rate r\<bar> \<le> 2 ^ 38) (take 3 scenario) \<and>
   absentSources (take 3 scenario) = [AAVE_USDT, ONDO_USDY] \<and>
   snd (dor_loop (take 3 scenario) (0, 0)) = 7500 \<and>
   calculateDOR (take 3 scenario) = Some 427"
proof -
  have h: "distinct (map sourceId (take 3 scenario))"
          "ONDO_USDY \<notin> sourceId ` set (take 3 scenario)"
    by (simp_all add: scenario_def obs_def)
  have ne: "take 3 scenario \<noteq> []" by (simp add: scenario_def)
  have bd: "\<forall>r\<in>set (take 3 scenario). \<bar>rate r\<bar> \<le> 2 ^ 38"
    by (simp add: scenario_def obs_def)
  have a: "absentSources (take 3 scenario) = [AAVE_USDT, ONDO_USDY]"
    by (simp add: absentSources_def allSources_def scenario_def obs_def)
  have ws: "(\<Sum>r\<leftarrow>take 3 scenario. rate r * weights (sourceId r)) = 3200000"
    by (simp add: scenario_def obs_def)
  note t = calculateDOR_renormalizes [OF h]
  from t have w: "snd (dor_loop (take 3 scenario) (0, 0)) = 7500" by (simp add: a)
  note v = t [THEN conjunct2, THEN conjunct2, THEN conjunct2, THEN conjunct2, THEN mp,
              OF conjI [OF ne bd]]
  then obtain d where d: "calculateDOR (take 3 scenario) = Some d"
    and lo: "(2 * d - 1) * (10000 - (\<Sum>a\<leftarrow>absentSources (take 3 scenario). weights a))
               \<le> 2 * (\<Sum>r\<leftarrow>take 3 scenario. rate r * weights (sourceId r))"
    and hi: "2 * (\<Sum>r\<leftarrow>take 3 scenario. rate r * weights (sourceId r))
               < (2 * d + 1) * (10000 - (\<Sum>a\<leftarrow>absentSources (take 3 scenario). weights a))"
    by blast
  from lo hi have "(2 * d - 1) * 7500 \<le> 6400000" "6400000 < (2 * d + 1) * 7500"
    unfolding a ws by simp_all
  then have "d = 427" by simp
  with h ne bd a w d show ?thesis by (simp add: list_all_iff)
qed

subsection \<open>The empty observation set\<close>

text \<open>
  C10. On the empty observation set \<open>calculateDOR\<close> does not divide: the total weight
  is 0 and the result is the default 460. Whenever the loop leaves a total weight of 0
  the result is 460, a number and not \<open>NaN\<close>.
\<close>

theorem calculateDOR_zero_weight:
  "calculateDOR [] = Some 460 \<and>
   (snd (dor_loop rates (0, 0)) = 0 \<longrightarrow> calculateDOR rates = Some 460)"
  by (simp add: calculateDOR_def split: prod.splits)

theorem calculateDOR_zero_weight_witness:
  "snd (dor_loop [] (0, 0)) = 0 \<and> calculateDOR [] = Some 460"
  using calculateDOR_zero_weight [of "[]"] by simp

section \<open>Properties of the retry wrappers\<close>

lemma collectors_retry_ok:
  "attempt \<le> c_maxRetries config \<Longrightarrow> fn w = (Inr v, w') \<Longrightarrow>
   collectors_retry_loop config sleep fn attempt lastError w = (Inr v, w')"
  by (subst collectors_retry_loop.simps) simp

lemma collectors_retry_fail:
  "attempt \<le> c_maxRetries config \<Longrightarrow> fn w = (Inl e, w') \<Longrightarrow>
   collectors_retry_loop config sleep fn attempt lastError w =
   collectors_retry_loop config sleep fn (Suc attempt) e
     (if attempt < c_maxRetries config
      then sleep (c_retryDelayMs config * 2 ^ (attempt - 1)) w' else w')"
  by (subst collectors_retry_loop.simps) simp

lemma collectors_retry_end:
  "\<not> attempt \<le> c_maxRetries config \<Longrightarrow>
   collectors_retry_loop config sleep fn attempt lastError w = (Inl lastError, w)"
  by (subst collectors_retry_loop.simps) simp

lemma collectors_retry_unfold:
  "attempt \<le> c_maxRetries config \<Longrightarrow>
   collectors_retry_loop config sleep fn attempt lastError w =
     (case fn w of
        (Inr v, w') \<Rightarrow> (Inr v, w')
      | (Inl error, w') \<Rightarrow>
          collectors_retry_loop config sleep fn (Suc attempt) error
            (if attempt < c_maxRetries config
             then sleep (c_retryDelayMs config * 2 ^ (attempt - 1)) w' else w'))"
  by (subst collectors_retry_loop.simps) simp

lemma retry_ok:
  "attempt \<le> maxRetries config \<Longrightarrow> fn w = (Inr v, w') \<Longrightarrow>
   retry_loop config sleep onRetry fn attempt lastError w = (Inr v, w')"
  by (subst retry_loop.simps) simp

lemma retry_fail:
  "attempt < maxRetries config \<Longrightarrow> fn w = (Inl e, w') \<Longrightarrow> e \<noteq> Null \<Longrightarrow>
   retry_loop config sleep onRetry fn attempt lastError w =
   retry_loop config sleep onRetry fn (Suc attempt) e
     (sleep (min (baseDelayMs config * backoffMultiplier config ^ (attempt - 1)) (maxDelayMs config))
        (case onRetry of None \<Rightarrow> w' | Some cb \<Rightarrow> cb attempt e w'))"
  by (subst retry_loop.simps) (simp add: Let_def)

lemma retry_fail_last:
  "attempt = maxRetries config \<Longrightarrow> fn w = (Inl e, w') \<Longrightarrow>
   retry_loop config sleep onRetry fn attempt lastError w =
   retry_loop config sleep onRetry fn (Suc attempt) e w'"
  by (subst retry_loop.simps) simp

lemma retry_end:
  "\<not> attempt \<le> maxRetries config \<Longrightarrow>
   retry_loop config sleep onRetry fn attempt lastError w = (Inl lastError, w)"
  by (subst retry_loop.simps) simp

text \<open>
  C8. An operation whose first two invocations fail (each throwing an \<open>Error\<close> object)
  and whose third succeeds: with three attempts allowed, \<open>withRetry\<close> of the pusher and
  \<open>withRetry\<close> of the collectors both return the value of the third invocation, and
  the operation has been invoked exactly three times.
\<close>

theorem withRetry_third_attempt:
  assumes "outcome 0 = Inl e0" "e0 \<noteq> Null" "outcome 1 = Inl e1" "e1 \<noteq> Null"
    and "outcome 2 = Inr v"
    and "maxRetries config = 3" and "c_maxRetries cconfig = 3"
  shows "(\<exists>w'. withRetry config sim_sleep None (scripted outcome) (new_sim t) = (Inr v, w')
                \<and> sim_calls w' = 3) \<and>
         (\<exists>w'. collectors_withRetry cconfig sim_sleep (scripted outcome) (new_sim t) = (Inr v, w')
                \<and> sim_calls w' = 3)"
proof
  let ?fn = "scripted outcome :: sim \<Rightarrow> (exn + 'a) \<times> sim"
  define d1 where "d1 = min (baseDelayMs config * backoffMultiplier config ^ (1 - 1)) (maxDelayMs config)"
  define d2 where "d2 = min (baseDelayMs config * backoffMultiplier config ^ (2 - 1)) (maxDelayMs config)"
  define w1 where "w1 = \<lparr>sim_clock = t, sim_calls = 1\<rparr>"
  define w2 where "w2 = \<lparr>sim_clock = t + d1, sim_calls = 2\<rparr>"
  define w3 where "w3 = \<lparr>sim_clock = t + d1 + d2, sim_calls = 3\<rparr>"
  have s1: "?fn (new_sim t) = (Inl e0, w1)"
    by (simp add: scripted_def new_sim_def w1_def assms)
  have o1: "outcome (Suc 0) = Inl e1" using assms(3) by simp
  have s2: "?fn (sim_sleep d1 w1) = (Inl e1, w2)"
    by (simp add: scripted_def sim_sleep_def w1_def w2_def o1)
  have s3: "?fn (sim_sleep d2 w2) = (Inr v, w3)"
    by (simp add: scripted_def sim_sleep_def w2_def w3_def assms)
  have "retry_loop config sim_sleep None ?fn (Suc 0) Null (new_sim t) =
        retry_loop config sim_sleep None ?fn (Suc (Suc 0)) e0 (sim_sleep d1 w1)"
    using retry_fail [of "Suc 0" config ?fn "new_sim t" e0 w1 sim_sleep None Null] s1 assms
    by (simp add: d1_def eval_nat_numeral)
  also have "\<dots> = retry_loop config sim_sleep None ?fn (Suc (Suc (Suc 0))) e1 (sim_sleep d2 w2)"
    using retry_fail [of "Suc (Suc 0)" config ?fn "sim_sleep d1 w1" e1 w2 sim_sleep None e0] s2 assms
    by (simp add: d2_def eval_nat_numeral)
  also have "\<dots> = (Inr v, w3)"
    using retry_ok [of "Suc (Suc (Suc 0))" config ?fn "sim_sleep d2 w2" v w3 sim_sleep None e1] s3 assms
    by (simp add: eval_nat_numeral)
  finally have "withRetry config sim_sleep None ?fn (new_sim t) = (Inr v, w3)"
    by (simp add: withRetry_def)
  moreover have "sim_calls w3 = 3" by (simp add: w3_def)
  ultimately show "\<exists>w'. withRetry config sim_sleep None ?fn (new_sim t) = (Inr v, w') \<and> sim_calls w' = 3"
    by blast
next
  let ?fn = "scripted outcome :: sim \<Rightarrow> (exn + 'a) \<times> sim"
  define d1 where "d1 = c_retryDelayMs cconfig * 2 ^ (1 - 1)"
  define d2 where "d2 = c_retryDelayMs cconfig * 2 ^ (2 - 1)"
  define w1 where "w1 = \<lparr>sim_clock = t, sim_calls = 1\<rparr>"
  define w2 where "w2 = \<lparr>sim_clock = t + d1, sim_calls = 2\<rparr>"
  define w3 where "w3 = \<lparr>sim_clock = t + d1 + d2, sim_calls = 3\<rparr>"
  have s1: "?fn (new_sim t) = (Inl e0, w1)"
    by (simp add: scripted_def new_sim_def w1_def assms)
  have o1: "outcome (Suc 0) = Inl e1" using assms(3) by simp
  have s2: "?fn (sim_sleep d1 w1) = (Inl e1, w2)"
    by (simp add: scripted_def sim_sleep_def w1_def w2_def o1)
  have s3: "?fn (sim_sleep d2 w2) = (Inr v, w3)"
    by (simp add: scripted_def sim_sleep_def w2_def w3_def assms)
  have "collectors_retry_loop cconfig sim_sleep ?fn (Suc 0) Null (new_sim t) =
        collectors_retry_loop cconfig sim_sleep ?fn (Suc (Suc 0)) e0 (sim_sleep d1 w1)"
    using collectors_retry_fail [of "Suc 0" cconfig ?fn "new_sim t" e0 w1 sim_sleep Null] s1 assms
    by (simp add: d1_def eval_nat_numeral)
  also have "\<dots> = collectors_retry_loop cconfig sim_sleep ?fn (Suc (Suc (Suc 0))) e1 (sim_sleep d2 w2)"
    using collectors_retry_fail [of "Suc (Suc 0)" cconfig ?fn "sim_sleep d1 w1" e1 w2 sim_sleep e0] s2 assms
    by (simp add: d2_def eval_nat_numeral)
  also have "\<dots> = (Inr v, w3)"
    using collectors_retry_ok [of "Suc (Suc (Suc 0))" cconfig ?fn "sim_sleep d2 w2" v w3 sim_sleep e1] s3 assms
    by (simp add: eval_nat_numeral)
  finally have "collectors_withRetry cconfig sim_sleep ?fn (new_sim t) = (Inr v, w3)"
    by (simp add: collectors_withRetry_def)
  moreover have "sim_calls w3 = 3" by (simp add: w3_def)
  ultimately show "\<exists>w'. collectors_withRetry cconfig sim_sleep ?fn (new_sim t) = (Inr v, w') \<and> sim_calls w' = 3"
    by blast
qed

theorem withRetry_third_attempt_witness:
  "(\<exists>w'. withRetry DEFAULT_RETRY_CONFIG sim_sleep None
            (scripted (\<lambda>k. if k < 2 then Inl (External ''boom'') else Inr (7::int)))
            (new_sim 0) = (Inr 7, w') \<and> sim_calls w' = 3) \<and>
   (\<exists>w'. collectors_withRetry DEFAULT_CONFIG sim_sleep
            (scripted (\<lambda>k. if k < 2 then Inl (External ''boom'') else Inr (7::int)))
            (new_sim 0) = (Inr 7, w') \<and> sim_calls w' = 3)"
  using withRetry_third_attempt
    [of "\<lambda>k. if k < 2 then Inl (External ''boom'') else Inr (7::int)"
        "External ''boom''" "External ''boom''" 7 DEFAULT_RETRY_CONFIG DEFAULT_CONFIG 0]
  by (simp add: DEFAULT_RETRY_CONFIG_def DEFAULT_CONFIG_def)

section \<open>Properties of the validation\<close>

lemma stale_loop_eq:
  "stale_loop now rates ws =
     ws @ map (\<lambda>r. StaleData (name r)) (filter (\<lambda>r. now - timestamp r > maxAge) rates)"
  by (induction rates arbitrary: ws) simp_all

lemma extreme_loop_eq:
  "extreme_loop rates (ws, es) =
     (ws @ map (\<lambda>r. HighRate (name r) (rate r)) (filter (\<lambda>r. rate r > 5000) rates),
      es @ map (\<lambda>r. NegativeRate (name r) (rate r)) (filter (\<lambda>r. rate r < 0) rates))"
  by (induction rates arbitrary: ws es) simp_all

lemma validateRates_errors:
  "errors (validateRates now rates) =
     (if length rates < 3 then [TooFewSources (length rates)] else []) @
     map (\<lambda>r. NegativeRate (name r) (rate r)) (filter (\<lambda>r. rate r < 0) rates)"
  by (simp add: validateRates_def extreme_loop_eq Let_def)

lemma validateRates_isValid:
  "isValid (validateRates now rates) = (errors (validateRates now rates) = [])"
  by (simp add: validateRates_def extreme_loop_eq Let_def)

lemma validateRates_warnings:
  "warnings (validateRates now rates) =
     map (\<lambda>r. StaleData (name r)) (filter (\<lambda>r. now - timestamp r > maxAge) rates) @
     map (\<lambda>r. HighRate (name r) (rate r)) (filter (\<lambda>r. rate r > 5000) rates) @
     (if length (filter (\<lambda>r. \<not> isLive r) rates) > 2
      then [FallbackWarning (length (filter (\<lambda>r. \<not> isLive r) rates))] else [])"
  by (simp add: validateRates_def extreme_loop_eq stale_loop_eq Let_def)

lemma fallback_warning_iff:
  "FallbackWarning n \<in> set (warnings (validateRates now rates)) \<longleftrightarrow>
     n = length (filter (\<lambda>r. \<not> isLive r) rates) \<and> n > 2"
  by (auto simp: validateRates_warnings)

text \<open>
  C9. Five observations that are all fallback values (\<open>isLive\<close> false) with rates that
  are not negative: \<open>validateRates\<close> finds them valid, and the warnings contain the
  fallback warning, with the count 5. On any observation set the fallback warning is
  among the warnings exactly when more than two observations are not live.
\<close>

theorem validateRates_all_fallback:
  assumes "length rates = 5" and "\<forall>r\<in>set rates. \<not> isLive r \<and> 0 \<le> rate r"
  shows "isValid (validateRates now rates) \<and> errors (validateRates now rates) = [] \<and>
         FallbackWarning 5 \<in> set (warnings (validateRates now rates)) \<and>
         ((\<exists>n. FallbackWarning n \<in> set (warnings (validateRates now' rates'))) =
            (length (filter (\<lambda>r. \<not> isLive r) rates') > 2))"
proof -
  have neg: "filter (\<lambda>r. rate r < 0) rates = []"
    using assms(2) by (auto simp: filter_empty_conv)
  have fb: "filter (\<lambda>r. \<not> isLive r) rates = rates"
    using assms(2) by (simp add: filter_id_conv)
  have e: "errors (validateRates now rates) = []"
    using assms(1) by (simp add: validateRates_errors neg)
  have w: "FallbackWarning 5 \<in> set (warnings (validateRates now rates))"
    using assms(1) by (simp add: fallback_warning_iff fb)
  have g: "(\<exists>n. FallbackWarning n \<in> set (warnings (validateRates now' rates'))) =
            (length (filter (\<lambda>r. \<not> isLive r) rates') > 2)"
    by (auto simp: fallback_warning_iff)
  from e w g show ?thesis by (simp add: validateRates_isValid)
qed

theorem validateRates_all_fallback_witness:
  "length fallbacks = 5 \<and> list_all (\<lambda>r. \<not> isLive r \<and> 0 \<le> rate r) fallbacks \<and>
   isValid (validateRates 0 fallbacks) \<and>
   FallbackWarning 5 \<in> set (warnings (validateRates 0 fallbacks))"
proof -
  have h: "length fallbacks = 5" "\<forall>r\<in>set fallbacks. \<not> isLive r \<and> 0 \<le> rate r"
    by (simp_all add: fallbacks_def allSources_def fallback_def)
  from validateRates_all_fallback [OF h, of 0] h show ?thesis
    by (simp add: list_all_iff)
qed

lemma validateRates_too_few:
  assumes "length rates < 3"
  shows "\<not> isValid (validateRates now rates)"
        "TooFewSources (length rates) \<in> set (errors (validateRates now rates))"
  using assms by (simp_all add: validateRates_isValid validateRates_errors)

section \<open>Properties of the circuit breaker\<close>

text \<open>
  C2. A new breaker with threshold 3 guards an operation whose first three invocations
  fail and whose fourth succeeds; the calls are made at the times \<open>t1\<close>, \<open>t2\<close>, \<open>t3\<close>.
  After the third failure the state is \<open>OPEN\<close>. A call at a time \<open>t_early\<close>, before
  \<open>resetTimeoutMs\<close> has passed since the last failure, throws the breaker's own error
  and leaves the count of invocations at 3. A call at a time \<open>t_late\<close>, once
  \<open>resetTimeoutMs\<close> has passed, is admitted in state \<open>HALF_OPEN\<close>, invokes the
  operation, and on its success leaves the breaker \<open>CLOSED\<close> with \<open>failureCount\<close> 0.
\<close>

theorem circuit_breaker_cycle:
  assumes "failureThreshold config = 3" and "1 \<le> halfOpenMaxAttempts config"
    and "outcome 0 = Inl e0" and "outcome 1 = Inl e1" and "outcome 2 = Inl e2"
    and "outcome 3 = Inr v"
    and "t_early - t3 < resetTimeoutMs config" and "resetTimeoutMs config \<le> t_late - t3"
  shows
    "execute config sim_clock (scripted outcome) (new_CircuitBreaker, new_sim t1) =
       (Inl e0, \<lparr>state = CLOSED, failureCount = 1, lastFailureTime = t1, halfOpenAttempts = 0\<rparr>,
        \<lparr>sim_clock = t1, sim_calls = 1\<rparr>) \<and>
     execute config sim_clock (scripted outcome)
       (\<lparr>state = CLOSED, failureCount = 1, lastFailureTime = t1, halfOpenAttempts = 0\<rparr>,
        \<lparr>sim_clock = t2, sim_calls = 1\<rparr>) =
       (Inl e1, \<lparr>state = CLOSED, failureCount = 2, lastFailureTime = t2, halfOpenAttempts = 0\<rparr>,
        \<lparr>sim_clock = t2, sim_calls = 2\<rparr>) \<and>
     execute config sim_clock (scripted outcome)
       (\<lparr>state = CLOSED, failureCount = 2, lastFailureTime = t2, halfOpenAttempts = 0\<rparr>,
        \<lparr>sim_clock = t3, sim_calls = 2\<rparr>) =
       (Inl e2, \<lparr>state = OPEN, failureCount = 3, lastFailureTime = t3, halfOpenAttempts = 0\<rparr>,
        \<lparr>sim_clock = t3, sim_calls = 3\<rparr>) \<and>
     execute config sim_clock (scripted outcome)
       (\<lparr>state = OPEN, failureCount = 3, lastFailureTime = t3, halfOpenAttempts = 0\<rparr>,
        \<lparr>sim_clock = t_early, sim_calls = 3\<rparr>) =
       (Inl CircuitOpen,
        \<lparr>state = OPEN, failureCount = 3, lastFailureTime = t3, halfOpenAttempts = 0\<rparr>,
        \<lparr>sim_clock = t_early, sim_calls = 3\<rparr>) \<and>
     admit config t_late
       \<lparr>state = OPEN, failureCount = 3, lastFailureTime = t3, halfOpenAttempts = 0\<rparr> =
       (None, \<lparr>state = HALF_OPEN, failureCount = 3, lastFailureTime = t3, halfOpenAttempts = 1\<rparr>) \<and>
     execute config sim_clock (scripted outcome)
       (\<lparr>state = OPEN, failureCount = 3, lastFailureTime = t3, halfOpenAttempts = 0\<rparr>,
        \<lparr>sim_clock = t_late, sim_calls = 3\<rparr>) =
       (Inr v, \<lparr>state = CLOSED, failureCount = 0, lastFailureTime = t3, halfOpenAttempts = 1\<rparr>,
        \<lparr>sim_clock = t_late, sim_calls = 4\<rparr>)"
proof -
  have o1: "outcome (Suc 0) = Inl e1" using assms(4) by simp
  have a5: "admit config t_late \<lparr>state = OPEN, failureCount = 3, lastFailureTime = t3, halfOpenAttempts = 0\<rparr>
     = (None, \<lparr>state = HALF_OPEN, failureCount = 3, lastFailureTime = t3, halfOpenAttempts = 1\<rparr>)"
    using assms(2,8) by (simp add: admit_def Let_def)
  have e1: "execute config sim_clock (scripted outcome) (new_CircuitBreaker, new_sim t1) =
       (Inl e0, \<lparr>state = CLOSED, failureCount = 1, lastFailureTime = t1, halfOpenAttempts = 0\<rparr>,
        \<lparr>sim_clock = t1, sim_calls = 1\<rparr>)"
    by (simp add: execute_def admit_def new_sim_def scripted_def assms(1,3) onFailure_def
          new_CircuitBreaker_def Let_def)
  have e2: "execute config sim_clock (scripted outcome)
       (\<lparr>state = CLOSED, failureCount = 1, lastFailureTime = t1, halfOpenAttempts = 0\<rparr>,
        \<lparr>sim_clock = t2, sim_calls = 1\<rparr>) =
       (Inl e1, \<lparr>state = CLOSED, failureCount = 2, lastFailureTime = t2, halfOpenAttempts = 0\<rparr>,
        \<lparr>sim_clock = t2, sim_calls = 2\<rparr>)"
    by (simp add: execute_def admit_def scripted_def assms(1) o1 onFailure_def Let_def)
  have e3: "execute config sim_clock (scripted outcome)
       (\<lparr>state = CLOSED, failureCount = 2, lastFailureTime = t2, halfOpenAttempts = 0\<rparr>,
        \<lparr>sim_clock = t3, sim_calls = 2\<rparr>) =
       (Inl e2, \<lparr>state = OPEN, failureCount = 3, lastFailureTime = t3, halfOpenAttempts = 0\<rparr>,
        \<lparr>sim_clock = t3, sim_calls = 3\<rparr>)"
    by (simp add: execute_def admit_def scripted_def assms(1,5) onFailure_def Let_def)
  have e4: "execute config sim_clock (scripted outcome)
       (\<lparr>state = OPEN, failureCount = 3, lastFailureTime = t3, halfOpenAttempts = 0\<rparr>,
        \<lparr>sim_clock = t_early, sim_calls = 3\<rparr>) =
       (Inl CircuitOpen,
        \<lparr>state = OPEN, failureCount = 3, lastFailureTime = t3, halfOpenAttempts = 0\<rparr>,
        \<lparr>sim_clock = t_early, sim_calls = 3\<rparr>)"
    using assms(7) by (simp add: execute_def admit_def)
  have e5: "execute config sim_clock (scripted outcome)
       (\<lparr>state = OPEN, failureCount = 3, lastFailureTime = t3, halfOpenAttempts = 0\<rparr>,
        \<lparr>sim_clock = t_late, sim_calls = 3\<rparr>) =
       (Inr v, \<lparr>state = CLOSED, failureCount = 0, lastFailureTime = t3, halfOpenAttempts = 1\<rparr>,
        \<lparr>sim_clock = t_late, sim_calls = 4\<rparr>)"
    using assms(2,8) by (simp add: execute_def admit_def scripted_def assms(6) onSuccess_def Let_def)
  from e1 e2 e3 e4 a5 e5 show ?thesis by (intro conjI)
qed

theorem circuit_breaker_cycle_witness:
  "failureThreshold breakerConfig = 3 \<and> 1 \<le> halfOpenMaxAttempts breakerConfig \<and>
   3000 - 2000 < resetTimeoutMs breakerConfig \<and> resetTimeoutMs breakerConfig \<le> 302000 - 2000 \<and>
   execute breakerConfig sim_clock
     (scripted (\<lambda>k. if k < 3 then Inl (External ''rpc'') else Inr (1::int)))
     (\<lparr>state = OPEN, failureCount = 3, lastFailureTime = 2000, halfOpenAttempts = 0\<rparr>,
      \<lparr>sim_clock = 3000, sim_calls = 3\<rparr>) =
     (Inl CircuitOpen,
      \<lparr>state = OPEN, failureCount = 3, lastFailureTime = 2000, halfOpenAttempts = 0\<rparr>,
      \<lparr>sim_clock = 3000, sim_calls = 3\<rparr>) \<and>
   execute breakerConfig sim_clock
     (scripted (\<lambda>k. if k < 3 then Inl (External ''rpc'') else Inr (1::int)))
     (\<lparr>state = OPEN, failureCount = 3, lastFailureTime = 2000, halfOpenAttempts = 0\<rparr>,
      \<lparr>sim_clock = 302000, sim_calls = 3\<rparr>) =
     (Inr 1, \<lparr>state = CLOSED, failureCount = 0, lastFailureTime = 2000, halfOpenAttempts = 1\<rparr>,
      \<lparr>sim_clock = 302000, sim_calls = 4\<rparr>)"
  using circuit_breaker_cycle
    [of breakerConfig "\<lambda>k. if k < 3 then Inl (External ''rpc'') else Inr (1::int)"
        "External ''rpc''" "External ''rpc''" "External ''rpc''" 1 3000 2000 302000 0 1000]
  by (simp add: breakerConfig_def)

section \<open>Properties of the collectors\<close>

lemma ext_not_Null: "fst (ext c w) \<noteq> Inl Null"
  by (simp add: ext_def split: prod.splits sum.splits)

lemma ext_isl: "isl (fst (ext c w)) = isl (fst (c w))"
  by (simp add: ext_def split: prod.splits sum.splits)

lemma collectors_retry_loop_not_Null:
  assumes "\<forall>w0. fst (fn w0) \<noteq> Inl Null"
    and "lastError \<noteq> Null \<or> attempt \<le> c_maxRetries config"
  shows "fst (collectors_retry_loop config sleep fn attempt lastError w) \<noteq> Inl Null"
  using assms
proof (induction config sleep fn attempt lastError w rule: collectors_retry_loop.induct)
  case (1 config sleep fn attempt lastError w)
  show ?case
  proof (cases "attempt \<le> c_maxRetries config")
    case False
    with "1.prems" show ?thesis by (simp add: collectors_retry_end)
  next
    case True
    obtain r w' where f: "fn w = (r, w')" by (cases "fn w")
    show ?thesis
    proof (cases r)
      case (Inl e)
      from "1.prems"(1) f Inl have ne: "e \<noteq> Null" by (metis fst_conv)
      from "1.IH" [OF True f [symmetric] Inl "1.prems"(1)] ne
      show ?thesis using True f Inl by (simp add: collectors_retry_unfold)
    next
      case (Inr v)
      then show ?thesis using True f by (simp add: collectors_retry_unfold)
    qed
  qed
qed

lemma collectors_retry_loop_all_fail:
  assumes "\<forall>w0. isl (fst (fn w0))"
  shows "isl (fst (collectors_retry_loop config sleep fn attempt lastError w))"
  using assms
proof (induction config sleep fn attempt lastError w rule: collectors_retry_loop.induct)
  case (1 config sleep fn attempt lastError w)
  show ?case
  proof (cases "attempt \<le> c_maxRetries config")
    case False
    then show ?thesis by (simp add: collectors_retry_end)
  next
    case True
    obtain r w' where f: "fn w = (r, w')" by (cases "fn w")
    show ?thesis
    proof (cases r)
      case (Inl e)
      from "1.IH" [OF True f [symmetric] Inl "1.prems"]
      show ?thesis using True f Inl by (simp add: collectors_retry_unfold)
    next
      case (Inr v)
      with "1.prems" f have False by (metis fst_conv isl_def sum.distinct(1))
      then show ?thesis ..
    qed
  qed
qed

lemma collectors_withRetry_ext:
  assumes "1 \<le> c_maxRetries config"
  shows "fst (collectors_withRetry config sleep (ext c) w) \<noteq> Inl Null"
  unfolding collectors_withRetry_def
  using assms by (intro collectors_retry_loop_not_Null) (simp_all add: ext_not_Null)

lemma collect_loop_returns:
  assumes "1 \<le> c_maxRetries config"
  shows "\<exists>r w'. collect_loop config net sid nm sources w = (Inr r, w') \<and>
           (\<forall>x. r = Some x \<longrightarrow> sourceId x = sid \<and> isLive x)"
proof (induction sources arbitrary: w)
  case Nil
  show ?case by simp
next
  case (Cons s sources)
  obtain origin i where s: "s = (origin, i)" by (cases s)
  let ?run = "collectors_withRetry config (net_sleep net) (ext (endpoint net sid i)) w"
  obtain r w1 where t: "?run = (r, w1)" by (cases ?run)
  show ?case
  proof (cases r)
    case (Inl e)
    from collectors_withRetry_ext [OF assms, of "net_sleep net" "endpoint net sid i" w] t Inl
    have "e \<noteq> Null" by simp
    with Cons.IH [of w1] show ?thesis by (simp add: s t Inl)
  next
    case (Inr p)
    then show ?thesis by (simp add: s t)
  qed
qed

lemma collect_loop_all_fail:
  assumes "1 \<le> c_maxRetries config" and "\<forall>i w0. isl (fst (endpoint net sid i w0))"
  shows "\<exists>w'. collect_loop config net sid nm sources w = (Inr None, w')"
proof (induction sources arbitrary: w)
  case Nil
  show ?case by simp
next
  case (Cons s sources)
  obtain origin i where s: "s = (origin, i)" by (cases s)
  let ?run = "collectors_withRetry config (net_sleep net) (ext (endpoint net sid i)) w"
  obtain r w1 where t: "?run = (r, w1)" by (cases ?run)
  have "isl (fst ?run)"
    unfolding collectors_withRetry_def
    by (rule collectors_retry_loop_all_fail) (simp add: ext_isl assms(2))
  with t obtain e where r: "r = Inl e" by (cases r) simp_all
  from collectors_withRetry_ext [OF assms(1), of "net_sleep net" "endpoint net sid i" w] t r
  have "e \<noteq> Null" by simp
  with Cons.IH [of w1] show ?case by (simp add: s t r)
qed

lemma collect_from_returns:
  assumes "1 \<le> c_maxRetries config"
  shows "\<exists>r w'. collect_from sid nm sources fb config net w = (Inr r, w') \<and> sourceId r = sid \<and>
           ((\<forall>i w0. isl (fst (endpoint net sid i w0))) \<longrightarrow>
              r = fallback sid nm fb (net_now net w'))"
proof -
  from collect_loop_returns [OF assms, of net sid nm sources w]
  obtain r w' where l: "collect_loop config net sid nm sources w = (Inr r, w')"
    and p: "\<forall>x. r = Some x \<longrightarrow> sourceId x = sid \<and> isLive x" by blast
  show ?thesis
  proof (cases "\<forall>i w0. isl (fst (endpoint net sid i w0))")
    case True
    from collect_loop_all_fail [OF assms True, of nm sources w] l have "r = None" by auto
    with l True show ?thesis by (simp add: collect_from_def fallback_def)
  next
    case False
    with l p show ?thesis by (cases r) (auto simp: collect_from_def fallback_def)
  qed
qed

text \<open>
  C4 (as amended). With at least one attempt allowed (\<open>maxRetries\<close> at least 1, as in
  the default configuration), each of the five collectors returns an observation of
  its source whatever its endpoints do, and throws nothing. When every request to
  every candidate fails, the observation is the hardcoded fallback of that source:
  \<open>isLive\<close> is false and \<open>source\<close> is the string \<open>Fallback\<close>.
\<close>

theorem collectors_never_throw:
  assumes "1 \<le> c_maxRetries config"
  shows "\<exists>r w'. collector sid config net w = (Inr r, w') \<and> sourceId r = sid \<and>
           ((\<forall>i w0. isl (fst (endpoint net sid i w0))) \<longrightarrow>
              r = fallback sid (displayName sid) (fallbackRate sid) (net_now net w') \<and>
              \<not> isLive r \<and> source r = ''Fallback'' \<and> rate r = fallbackRate sid)"
proof -
  have "\<exists>r w'. collector sid config net w = (Inr r, w') \<and> sourceId r = sid \<and>
           ((\<forall>i w0. isl (fst (endpoint net sid i w0))) \<longrightarrow>
              r = fallback sid (displayName sid) (fallbackRate sid) (net_now net w'))"
    by (cases sid)
       (simp_all add: collectTESR_def collectMETH_def collectSOFR_def collectAaveUSDT_def
          collectOndoUSDY_def collect_from_returns [OF assms])
  then obtain r w' where c: "collector sid config net w = (Inr r, w')"
    and sid: "sourceId r = sid"
    and fb: "(\<forall>i w0. isl (fst (endpoint net sid i w0))) \<longrightarrow>
               r = fallback sid (displayName sid) (fallbackRate sid) (net_now net w')"
    by blast
  have "(\<forall>i w0. isl (fst (endpoint net sid i w0))) \<longrightarrow>
          r = fallback sid (displayName sid) (fallbackRate sid) (net_now net w') \<and>
          \<not> isLive r \<and> source r = ''Fallback'' \<and> rate r = fallbackRate sid"
  proof
    assume "\<forall>i w0. isl (fst (endpoint net sid i w0))"
    with fb have "r = fallback sid (displayName sid) (fallbackRate sid) (net_now net w')"
      by simp
    then show "r = fallback sid (displayName sid) (fallbackRate sid) (net_now net w') \<and>
          \<not> isLive r \<and> source r = ''Fallback'' \<and> rate r = fallbackRate sid"
      by (simp add: fallback_def)
  qed
  with c sid show ?thesis by blast
qed

theorem collectors_never_throw_witness:
  "1 \<le> c_maxRetries DEFAULT_CONFIG \<and> (\<forall>i w0. isl (fst (endpoint down_net TESR i w0))) \<and>
   (\<exists>w'. collector TESR DEFAULT_CONFIG down_net (new_sim 0) =
            (Inr (fallback TESR ''TESR'' 350 (sim_clock w')), w'))"
proof -
  have h: "1 \<le> c_maxRetries DEFAULT_CONFIG" by (simp add: DEFAULT_CONFIG_def)
  have d: "\<forall>i w0. isl (fst (endpoint down_net TESR i w0))" by (simp add: down_net_def)
  from collectors_never_throw [OF h, of TESR down_net "new_sim 0"] d h show ?thesis
    by (auto simp: down_net_def)
qed

text \<open>
  C4 as the specification words it: with every endpoint down, \<open>collectTESR\<close> under the
  default configuration returns its fallback after six requests, and the \<open>source\<close> of
  that observation is not the string \<open>fallback\<close>.
\<close>

theorem collectTESR_fallback_source:
  "collectTESR DEFAULT_CONFIG down_net (new_sim 0) =
     (Inr \<lparr>sourceId = TESR, name = ''TESR'', rate = 350, timestamp = 6000,
           source = ''Fallback'', isLive = False\<rparr>, \<lparr>sim_clock = 6000, sim_calls = 6\<rparr>) \<and>
   ''Fallback'' \<noteq> ''fallback''"
  by (simp add: collectTESR_def collect_from_def collectors_withRetry_def collectors_retry_unfold
        collectors_retry_end DEFAULT_CONFIG_def down_net_def ext_def new_sim_def sim_sleep_def
        fallback_def)

text \<open>
  With no attempt allowed, \<open>withRetry\<close> throws \<open>null\<close> and the \<open>catch\<close> block of the
  collector throws in turn.
\<close>

lemma collectTESR_no_attempts:
  "collectTESR \<lparr>c_maxRetries = 0, c_retryDelayMs = 1000, c_timeoutMs = 15000\<rparr> down_net (new_sim 0) =
     (Inl TypeErrorNull, new_sim 0)"
  by (simp add: collectTESR_def collect_from_def collectors_withRetry_def
        collectors_retry_end down_net_def ext_def new_sim_def)

section \<open>Properties of the push\<close>

lemma submitOnce_price_high:
  assumes "maxGasPrice config = Some cap" and "0 < cap" and "cap < price (cs_feeReads w)"
  shows "submitOnce (sim_chain price estimate) config rates w =
           (Inl (GasPriceTooHigh (price (cs_feeReads w)) cap),
            w\<lparr>cs_feeReads := Suc (cs_feeReads w)\<rparr>)"
  using assms
  by (simp add: submitOnce_def estimateGas_def sim_chain_def bindE_def ext_def
        split: sum.splits)

text \<open>
  The push over \<open>sim_chain\<close>, from a new breaker, with \<open>maxGasPrice\<close> configured as
  \<open>cap\<close>: attempt by attempt.
\<close>

lemma submitOnce_price_fine:
  assumes "maxGasPrice config = Some cap" and "cap = 0 \<or> price (cs_feeReads w) \<le> cap"
  shows "submitOnce (sim_chain price estimate) config rates w =
           (Inr (sim_receipt ''0xabc''),
            w\<lparr>cs_feeReads := Suc (cs_feeReads w), cs_sends := Suc (cs_sends w)\<rparr>)"
  using assms
  by (auto simp: submitOnce_def estimateGas_def send_and_wait_def sim_chain_def bindE_def ext_def
        sim_receipt_def split: sum.splits)

lemma sim_retry_fine:
  assumes "maxGasPrice config = Some cap" and "cap = 0 \<or> price (cs_feeReads w) \<le> cap"
    and "attempt \<le> 3"
  shows "retry_loop DEFAULT_RETRY_CONFIG (clock_sleep (sim_chain price estimate)) onRetry
           (submitOnce (sim_chain price estimate) config rates) attempt lastError w =
         (Inr (sim_receipt ''0xabc''),
          w\<lparr>cs_feeReads := Suc (cs_feeReads w), cs_sends := Suc (cs_sends w)\<rparr>)"
  using assms(3)
  by (intro retry_ok submitOnce_price_fine [where price = price and w = w, OF assms(1,2)])
     (simp add: DEFAULT_RETRY_CONFIG_def)

lemma sim_retry_high:
  assumes "maxGasPrice config = Some cap" and "0 < cap" and "cap < price (cs_feeReads w)"
    and "attempt < 3"
  shows "retry_loop DEFAULT_RETRY_CONFIG (clock_sleep (sim_chain price estimate))
           (Some (\<lambda>attempt error w. w))
           (submitOnce (sim_chain price estimate) config rates) attempt lastError w =
         retry_loop DEFAULT_RETRY_CONFIG (clock_sleep (sim_chain price estimate))
           (Some (\<lambda>attempt error w. w))
           (submitOnce (sim_chain price estimate) config rates) (Suc attempt)
           (GasPriceTooHigh (price (cs_feeReads w)) cap)
           (w\<lparr>cs_feeReads := Suc (cs_feeReads w),
              cs_clock := cs_clock w + min (2000 * 2 ^ (attempt - 1)) 30000\<rparr>)"
proof -
  have "retry_loop DEFAULT_RETRY_CONFIG (clock_sleep (sim_chain price estimate))
           (Some (\<lambda>attempt error w. w))
           (submitOnce (sim_chain price estimate) config rates) attempt lastError w =
        retry_loop DEFAULT_RETRY_CONFIG (clock_sleep (sim_chain price estimate))
           (Some (\<lambda>attempt error w. w))
           (submitOnce (sim_chain price estimate) config rates) (Suc attempt)
           (GasPriceTooHigh (price (cs_feeReads w)) cap)
           (clock_sleep (sim_chain price estimate)
              (min (baseDelayMs DEFAULT_RETRY_CONFIG *
                    backoffMultiplier DEFAULT_RETRY_CONFIG ^ (attempt - 1))
                   (maxDelayMs DEFAULT_RETRY_CONFIG))
              (case Some (\<lambda>attempt error w. w) of None \<Rightarrow> w\<lparr>cs_feeReads := Suc (cs_feeReads w)\<rparr>
               | Some cb \<Rightarrow> cb attempt (GasPriceTooHigh (price (cs_feeReads w)) cap)
                             (w\<lparr>cs_feeReads := Suc (cs_feeReads w)\<rparr>)))"
    using assms(4)
    by (intro retry_fail submitOnce_price_high [where price = price and w = w, OF assms(1,2,3)])
       (simp_all add: DEFAULT_RETRY_CONFIG_def)
  then show ?thesis by (simp add: DEFAULT_RETRY_CONFIG_def sim_chain_def)
qed

lemma sim_retry_last:
  assumes "maxGasPrice config = Some cap" and "0 < cap" and "cap < price (cs_feeReads w)"
  shows "retry_loop DEFAULT_RETRY_CONFIG (clock_sleep (sim_chain price estimate)) onRetry
           (submitOnce (sim_chain price estimate) config rates) 3 lastError w =
         (Inl (GasPriceTooHigh (price (cs_feeReads w)) cap),
          w\<lparr>cs_feeReads := Suc (cs_feeReads w)\<rparr>)"
proof -
  have "retry_loop DEFAULT_RETRY_CONFIG (clock_sleep (sim_chain price estimate)) onRetry
           (submitOnce (sim_chain price estimate) config rates) 3 lastError w =
        retry_loop DEFAULT_RETRY_CONFIG (clock_sleep (sim_chain price estimate)) onRetry
           (submitOnce (sim_chain price estimate) config rates) (Suc 3)
           (GasPriceTooHigh (price (cs_feeReads w)) cap) (w\<lparr>cs_feeReads := Suc (cs_feeReads w)\<rparr>)"
    by (intro retry_fail_last submitOnce_price_high [where price = price and w = w, OF assms])
       (simp add: DEFAULT_RETRY_CONFIG_def)
  also have "\<dots> = (Inl (GasPriceTooHigh (price (cs_feeReads w)) cap),
                     w\<lparr>cs_feeReads := Suc (cs_feeReads w)\<rparr>)"
    by (rule retry_end) (simp add: DEFAULT_RETRY_CONFIG_def)
  finally show ?thesis .
qed

lemma sim_withRetry:
  assumes "maxGasPrice config = Some cap"
  shows "withRetry DEFAULT_RETRY_CONFIG (clock_sleep (sim_chain price estimate))
           (Some (\<lambda>attempt error w. w))
           (submitOnce (sim_chain price estimate) config rates) new_chain_sim =
         (if cap = 0 \<or> price 0 \<le> cap then
            (Inr (sim_receipt ''0xabc''), \<lparr>cs_clock = 0, cs_feeReads = 1, cs_sends = 1\<rparr>)
          else if price 1 \<le> cap then
            (Inr (sim_receipt ''0xabc''), \<lparr>cs_clock = 2000, cs_feeReads = 2, cs_sends = 1\<rparr>)
          else if price 2 \<le> cap then
            (Inr (sim_receipt ''0xabc''), \<lparr>cs_clock = 6000, cs_feeReads = 3, cs_sends = 1\<rparr>)
          else
            (Inl (GasPriceTooHigh (price 2) cap),
             \<lparr>cs_clock = 6000, cs_feeReads = 3, cs_sends = 0\<rparr>))"
proof -
  let ?loop = "retry_loop DEFAULT_RETRY_CONFIG (clock_sleep (sim_chain price estimate))
           (Some (\<lambda>attempt error w. w))
           (submitOnce (sim_chain price estimate) config rates)"
  define w1 where "w1 = \<lparr>cs_clock = 2000, cs_feeReads = Suc 0, cs_sends = 0\<rparr>"
  define w2 where "w2 = \<lparr>cs_clock = 6000, cs_feeReads = Suc (Suc 0), cs_sends = 0\<rparr>"
  show ?thesis
  proof (cases "cap = 0 \<or> price 0 \<le> cap")
    case True
    then have "cap = 0 \<or> price (cs_feeReads new_chain_sim) \<le> cap"
      by (simp add: new_chain_sim_def)
    from sim_retry_fine [where price = price and w = new_chain_sim, OF assms this, of "Suc 0"] True
    show ?thesis
      by (simp add: withRetry_def new_chain_sim_def)
  next
    case False
    then have cap: "0 < cap" and h0: "cap < price (cs_feeReads new_chain_sim)"
      by (simp_all add: new_chain_sim_def)
    from sim_retry_high [where price = price and w = new_chain_sim, OF assms cap h0,
           of "Suc 0" estimate rates Null]
    have s1: "?loop (Suc 0) Null new_chain_sim =
              ?loop (Suc (Suc 0)) (GasPriceTooHigh (price 0) cap) w1"
      by (simp add: new_chain_sim_def w1_def)
    show ?thesis
    proof (cases "price 1 \<le> cap")
      case True
      then have "cap = 0 \<or> price (cs_feeReads w1) \<le> cap" by (simp add: w1_def)
      from sim_retry_fine [where price = price and w = w1, OF assms this, of "Suc (Suc 0)"]
        s1 True False
      show ?thesis
        by (simp add: withRetry_def w1_def)
    next
      case h1: False
      then have "cap < price (cs_feeReads w1)" by (simp add: w1_def)
      from sim_retry_high [where price = price and w = w1, OF assms cap this,
             of "Suc (Suc 0)" estimate rates "GasPriceTooHigh (price 0) cap"]
      have s2: "?loop (Suc (Suc 0)) (GasPriceTooHigh (price 0) cap) w1 =
                ?loop 3 (GasPriceTooHigh (price 1) cap) w2"
        by (simp add: w1_def w2_def numeral_3_eq_3)
      show ?thesis
      proof (cases "price 2 \<le> cap")
        case True
        then have "cap = 0 \<or> price (cs_feeReads w2) \<le> cap" by (simp add: w2_def numeral_2_eq_2)
        from sim_retry_fine [where price = price and w = w2, OF assms this, of 3]
          s1 s2 True False h1
        show ?thesis
          by (simp add: withRetry_def w2_def)
      next
        case h2: False
        then have "cap < price (cs_feeReads w2)" by (simp add: w2_def numeral_2_eq_2)
        from sim_retry_last [where price = price and w = w2, OF assms cap this] s1 s2 False h1 h2
        show ?thesis
          by (simp add: withRetry_def w2_def numeral_2_eq_2)
      qed
    qed
  qed
qed

lemma pushBatchRates_sim:
  assumes "maxGasPrice config = Some cap"
  shows "pushBatchRates (sim_chain price estimate) config rates
           (new_CircuitBreaker, new_chain_sim) =
         (if cap = 0 \<or> price 0 \<le> cap then
            (Inr (sim_receipt ''0xabc''), new_CircuitBreaker,
             \<lparr>cs_clock = 0, cs_feeReads = 1, cs_sends = 1\<rparr>)
          else if price 1 \<le> cap then
            (Inr (sim_receipt ''0xabc''), new_CircuitBreaker,
             \<lparr>cs_clock = 2000, cs_feeReads = 2, cs_sends = 1\<rparr>)
          else if price 2 \<le> cap then
            (Inr (sim_receipt ''0xabc''), new_CircuitBreaker,
             \<lparr>cs_clock = 6000, cs_feeReads = 3, cs_sends = 1\<rparr>)
          else
            (Inl (GasPriceTooHigh (price 2) cap),
             \<lparr>state = CLOSED, failureCount = 1, lastFailureTime = 6000, halfOpenAttempts = 0\<rparr>,
             \<lparr>cs_clock = 6000, cs_feeReads = 3, cs_sends = 0\<rparr>))"
proof -
  have n: "clock_now (sim_chain price estimate) = cs_clock" by (simp add: sim_chain_def)
  have a: "admit breakerConfig t new_CircuitBreaker = (None, new_CircuitBreaker)" for t
    by (simp add: admit_def new_CircuitBreaker_def)
  have s: "onSuccess new_CircuitBreaker = new_CircuitBreaker"
    by (simp add: onSuccess_def new_CircuitBreaker_def)
  have f: "onFailure breakerConfig 6000 new_CircuitBreaker =
             \<lparr>state = CLOSED, failureCount = 1, lastFailureTime = 6000, halfOpenAttempts = 0\<rparr>"
    by (simp add: onFailure_def new_CircuitBreaker_def breakerConfig_def)
  show ?thesis
    unfolding pushBatchRates_def execute_def n
    by (simp add: a sim_withRetry [OF assms] s f)
qed

text \<open>
  C5 (as amended). The gas price check runs inside the function given to \<open>withRetry\<close>,
  so a rejection by the cap is retried like any other failure. Over the chain
  \<open>sim_chain\<close> (gas estimation answers or fails, the fee data are read, every
  transaction sent is confirmed with status 1) and from a new breaker, with \<open>maxGasPrice\<close> configured as \<open>cap\<close>: the fee data are read once per
  attempt, at most three times, with waits of 2000 and 4000 ms; at the first attempt at
  which the cap is \<open>0n\<close> or the gas price is at most the cap, the transaction is sent and
  the push returns its receipt; when the cap is not \<open>0n\<close> and the gas price is above it
  at all three attempts, the push fails with the gas price error of the third attempt,
  no transaction has been sent, and the breaker has counted one failure.
\<close>

theorem pushBatchRates_gas_cap:
  assumes "maxGasPrice config = Some cap"
  shows "pushBatchRates (sim_chain price estimate) config rates
           (new_CircuitBreaker, new_chain_sim) =
         (if cap = 0 \<or> price 0 \<le> cap then
            (Inr (sim_receipt ''0xabc''), new_CircuitBreaker,
             \<lparr>cs_clock = 0, cs_feeReads = 1, cs_sends = 1\<rparr>)
          else if price 1 \<le> cap then
            (Inr (sim_receipt ''0xabc''), new_CircuitBreaker,
             \<lparr>cs_clock = 2000, cs_feeReads = 2, cs_sends = 1\<rparr>)
          else if price 2 \<le> cap then
            (Inr (sim_receipt ''0xabc''), new_CircuitBreaker,
             \<lparr>cs_clock = 6000, cs_feeReads = 3, cs_sends = 1\<rparr>)
          else
            (Inl (GasPriceTooHigh (price 2) cap),
             \<lparr>state = CLOSED, failureCount = 1, lastFailureTime = 6000, halfOpenAttempts = 0\<rparr>,
             \<lparr>cs_clock = 6000, cs_feeReads = 3, cs_sends = 0\<rparr>))"
  by (rule pushBatchRates_sim [OF assms])

theorem pushBatchRates_gas_cap_witness:
  "maxGasPrice \<lparr>maxGasPrice = Some 100\<rparr> = Some 100 \<and>
   pushBatchRates (sim_chain (\<lambda>k. 200) (Inr 100000)) \<lparr>maxGasPrice = Some 100\<rparr> scenario
     (new_CircuitBreaker, new_chain_sim) =
     (Inl (GasPriceTooHigh 200 100),
      \<lparr>state = CLOSED, failureCount = 1, lastFailureTime = 6000, halfOpenAttempts = 0\<rparr>,
      \<lparr>cs_clock = 6000, cs_feeReads = 3, cs_sends = 0\<rparr>)"
  using pushBatchRates_gas_cap
    [of "\<lparr>maxGasPrice = Some 100\<rparr>" 100 "\<lambda>k. 200" "Inr 100000" scenario]
  by simp

text \<open>
  C5 as the specification words it: the gas price is above the cap of 100 at the first
  reading (200) and below it at the second (50). The push does not abort: the
  submission is attempted again and the transaction is sent.
\<close>

theorem pushBatchRates_gas_cap_retried:
  "pushBatchRates (sim_chain (\<lambda>k. if k = 0 then 200 else 50) (Inr 100000))
     \<lparr>maxGasPrice = Some 100\<rparr> scenario (new_CircuitBreaker, new_chain_sim) =
     (Inr (sim_receipt ''0xabc''),
      \<lparr>state = CLOSED, failureCount = 0, lastFailureTime = 0, halfOpenAttempts = 0\<rparr>,
      \<lparr>cs_clock = 2000, cs_feeReads = 2, cs_sends = 1\<rparr>)"
  using pushBatchRates_sim [of "\<lparr>maxGasPrice = Some 100\<rparr>" 100
          "\<lambda>k. if k = 0 then 200 else 50" "Inr 100000" scenario]
  by (simp add: new_CircuitBreaker_def)

section \<open>Properties of the runner\<close>

lemma run_try_too_few:
  assumes "length rates < 3"
  shows "run_try config chain collab dryRun rates w =
           (Inl (if rates = [] then NoRatesCollected
                 else ValidationFailed (errors (validateRates (clock_now chain w) rates))),
            Some 0, w)"
  using validateRates_too_few(1) [OF assms] by (simp add: run_try_def Let_def)

text \<open>
  C3. When the collection gives fewer than three observations, \<open>validateRates\<close> reports
  the set invalid and \<open>runUpdate\<close> throws. Its result is spelled out below: the world
  has passed through the database calls only, and of the chain only the clock has been
  read, so the result is the same over any other chain with that clock: the pusher is
  not built, and neither \<open>isAuthorized\<close> nor \<open>fullUpdate\<close> (hence \<open>pushBatchRates\<close>) nor
  \<open>dryRun\<close> is invoked.
\<close>

theorem runUpdate_too_few_sources:
  assumes "collectAll collab w = (rates, w0)" and "length rates < 3"
  shows "\<not> isValid (validateRates now rates) \<and>
         isl (fst (runUpdate config chain collab dryRun w)) \<and>
         runUpdate config chain collab dryRun w =
           (let error = (if rates = [] then NoRatesCollected
                         else ValidationFailed (errors (validateRates (clock_now chain w0) rates)))
            in if useDatabase config \<and> rates \<noteq> [] then
                 (case db_log collab error w0 of
                    (Inl m, w2) \<Rightarrow>
                      (Inl (External m),
                       run_finally config collab dryRun rates (Some 0) None (Some error) w2)
                  | (Inr u, w2) \<Rightarrow>
                      (Inl error,
                       run_finally config collab dryRun rates (Some 0) None (Some error) w2))
               else (Inl error,
                     run_finally config collab dryRun rates (Some 0) None (Some error) w0)) \<and>
         (clock_now chain2 = clock_now chain \<longrightarrow>
            runUpdate config chain2 collab dryRun w = runUpdate config chain collab dryRun w)"
proof -
  note v = validateRates_too_few(1) [OF assms(2)]
  have eq: "runUpdate config c collab dryRun w =
           (let error = (if rates = [] then NoRatesCollected
                         else ValidationFailed (errors (validateRates (clock_now c w0) rates)))
            in if useDatabase config \<and> rates \<noteq> [] then
                 (case db_log collab error w0 of
                    (Inl m, w2) \<Rightarrow>
                      (Inl (External m),
                       run_finally config collab dryRun rates (Some 0) None (Some error) w2)
                  | (Inr u, w2) \<Rightarrow>
                      (Inl error,
                       run_finally config collab dryRun rates (Some 0) None (Some error) w2))
               else (Inl error,
                     run_finally config collab dryRun rates (Some 0) None (Some error) w0))"
    for c :: "'a chain"
    by (simp add: runUpdate_def assms(1) run_try_too_few [OF assms(2)] Let_def)
  have l: "isl (fst (runUpdate config chain collab dryRun w))"
    unfolding eq [of chain] by (simp add: Let_def split: prod.splits sum.splits)
  have i: "clock_now chain2 = clock_now chain \<longrightarrow>
            runUpdate config chain2 collab dryRun w = runUpdate config chain collab dryRun w"
    by (simp add: eq)
  from v l eq [of chain] i show ?thesis by blast
qed

theorem runUpdate_too_few_sources_witness:
  "collectAll (sim_collab (take 2 scenario)) (new_sim 0) = (take 2 scenario, new_sim 0) \<and>
   length (take 2 scenario) < 3 \<and>
   clock_now (counting_chain\<lparr>rpc_getDOR := (\<lambda>w. (Inl ''down'', w))\<rparr>) = clock_now counting_chain \<and>
   runUpdate \<lparr>oracleAddress = ''0x1'', privateKey = ''k'', useDatabase = True\<rparr>
     counting_chain (sim_collab (take 2 scenario)) False (new_sim 0) =
     (Inl (ValidationFailed [TooFewSources 2]), \<lparr>sim_clock = 0, sim_calls = 0\<rparr>)"
proof -
  have h: "collectAll (sim_collab (take 2 scenario)) (new_sim 0) = (take 2 scenario, new_sim 0)"
          "length (take 2 scenario) < 3"
    by (simp_all add: sim_collab_def scenario_def)
  have c: "clock_now (counting_chain\<lparr>rpc_getDOR := (\<lambda>w. (Inl ''down'', w))\<rparr>) =
             clock_now counting_chain"
    by simp
  have e: "errors (validateRates 0 (take 2 scenario)) = [TooFewSources 2]"
    by (simp add: validateRates_errors scenario_def obs_def)
  have ne: "scenario \<noteq> []" by (simp add: scenario_def)
  have ck: "clock_now counting_chain \<lparr>sim_clock = 0, sim_calls = 0\<rparr> = 0"
    by (simp add: counting_chain_def)
  have dl: "db_log (sim_collab rs) err w = (Inr (), w)" for rs err w
    by (simp add: sim_collab_def)
  have ds: "db_save (sim_collab rs) rs' dor result err w = w" for rs rs' dor result err w
    by (simp add: sim_collab_def)
  note t = runUpdate_too_few_sources [OF h, of 0
         "\<lparr>oracleAddress = ''0x1'', privateKey = ''k'', useDatabase = True\<rparr>"
         counting_chain False "counting_chain\<lparr>rpc_getDOR := (\<lambda>w. (Inl ''down'', w))\<rparr>"]
  have "runUpdate \<lparr>oracleAddress = ''0x1'', privateKey = ''k'', useDatabase = True\<rparr>
          counting_chain (sim_collab (take 2 scenario)) False (new_sim 0) =
        (Inl (ValidationFailed [TooFewSources 2]), \<lparr>sim_clock = 0, sim_calls = 0\<rparr>)"
    by (subst t [THEN conjunct2, THEN conjunct2, THEN conjunct1])
       (simp add: Let_def ne ck e dl ds run_finally_def saveToDatabase_def new_sim_def)
  with h c show ?thesis by simp
qed

text \<open>
  For comparison, a live run on the five observations of the scenario over the same
  counting chain: the pusher is built, the authorization is read, and \<open>fullUpdate\<close>
  makes six calls to the chain.
\<close>

lemma scenario_valid: "isValid (validateRates 0 scenario)"
  by (simp add: validateRates_isValid validateRates_errors scenario_def obs_def)

lemma submitOnce_counting:
  "submitOnce counting_chain \<lparr>maxGasPrice = None\<rparr> rates w =
     (Inr (sim_receipt ''0xabc''), w\<lparr>sim_calls := sim_calls w + 4\<rparr>)"
  by (simp add: submitOnce_def estimateGas_def send_and_wait_def counting_chain_def bindE_def
        ext_def sim_receipt_def)

lemma pushBatchRates_counting:
  "pushBatchRates counting_chain \<lparr>maxGasPrice = None\<rparr> rates (new_CircuitBreaker, w) =
     (Inr (sim_receipt ''0xabc''), new_CircuitBreaker, w\<lparr>sim_calls := sim_calls w + 4\<rparr>)"
proof -
  have r: "withRetry DEFAULT_RETRY_CONFIG sleep cb
             (submitOnce counting_chain \<lparr>maxGasPrice = None\<rparr> rates) w =
           (Inr (sim_receipt ''0xabc''), w\<lparr>sim_calls := sim_calls w + 4\<rparr>)" for sleep cb
    unfolding withRetry_def
    by (rule retry_ok) (simp_all add: DEFAULT_RETRY_CONFIG_def submitOnce_counting)
  show ?thesis
    by (simp add: pushBatchRates_def execute_def admit_def new_CircuitBreaker_def r onSuccess_def
          Let_def)
qed

lemma runUpdate_scenario_counts:
  "runUpdate \<lparr>oracleAddress = ''0x1'', privateKey = ''k'', useDatabase = True\<rparr>
     counting_chain (sim_collab scenario) False (new_sim 0) =
     (Inr (), \<lparr>sim_clock = 0, sim_calls = 8\<rparr>)"
proof -
  have ne: "scenario \<noteq> []" by (simp add: scenario_def)
  have ck: "clock_now counting_chain \<lparr>sim_clock = 0, sim_calls = 0\<rparr> = 0"
    by (simp add: counting_chain_def)
  have g: "getCurrentDOR counting_chain w = (Inr 453, w\<lparr>sim_calls := Suc (sim_calls w)\<rparr>)" for w
    by (simp add: getCurrentDOR_def ext_def counting_chain_def)
  have a: "isAuthorized counting_chain w = (True, w\<lparr>sim_calls := Suc (sim_calls w)\<rparr>)" for w
    by (simp add: isAuthorized_def counting_chain_def)
  have n: "ext (new_RatePusher (sim_collab rs)) w = (Inr (), w\<lparr>sim_calls := Suc (sim_calls w)\<rparr>)"
    for rs w by (simp add: ext_def sim_collab_def)
  have f: "fullUpdate counting_chain \<lparr>maxGasPrice = None\<rparr> scenario (new_CircuitBreaker, w) =
             (Inr \<lparr>txHash = ''0xabc'', oldDOR = 453, newDOR = 453, localDOR = Some 453,
                   gasUsed = 21000, blockNumber = 1\<rparr>, new_CircuitBreaker,
              w\<lparr>sim_calls := sim_calls w + 6\<rparr>)" for w
    by (simp add: fullUpdate_def g pushBatchRates_counting sim_receipt_def
          scenario_dor)
  have ca: "collectAll (sim_collab rs) w = (rs, w)" for rs w
    by (simp add: sim_collab_def)
  have ds: "db_save (sim_collab rs) rs' dor result err w = w" for rs rs' dor result err w
    by (simp add: sim_collab_def)
  have t: "run_try \<lparr>oracleAddress = ''0x1'', privateKey = ''k'', useDatabase = True\<rparr>
             counting_chain (sim_collab scenario) False scenario \<lparr>sim_clock = 0, sim_calls = 0\<rparr> =
           (Inr (Some \<lparr>txHash = ''0xabc'', oldDOR = 453, newDOR = 453, localDOR = Some 453,
                       gasUsed = 21000, blockNumber = 1\<rparr>), Some 453,
            \<lparr>sim_clock = 0, sim_calls = 8\<rparr>)"
    by (simp add: run_try_def Let_def ne ck scenario_valid n a f
          scenario_dor)
  show ?thesis
    by (simp add: runUpdate_def ca new_sim_def t run_finally_def saveToDatabase_def ds)
qed

end
